theory Spec2Isabelle
  imports Main
begin

unbundle bit_operations_syntax

section \<open>Python values of the Ease of Access module\<close>

text \<open>
  Exceptions of the Python source are values.  \<open>WindowsError\<close> is Python's \<open>OSError\<close>;
  \<open>FileNotFoundError\<close> and \<open>PermissionError\<close> are subclasses of it, the other
  exceptions are not.
\<close>

datatype exn =
    FileNotFoundError
  | PermissionError
  | AttributeError
  | IndexError
  | ValueError
  | UnboundLocalError
  | COMError

definition isWindowsError :: "exn \<Rightarrow> bool" where
  "isWindowsError e = (e = FileNotFoundError \<or> e = PermissionError)"

text \<open>\<open>str.split(sep)\<close> and \<open>sep.join(xs)\<close> for a one-character separator.\<close>

fun str_split :: "char \<Rightarrow> string \<Rightarrow> string list" where
  "str_split c [] = [[]]"
| "str_split c (x # xs) =
     (if x = c then [] # str_split c xs
      else (case str_split c xs of
              [] \<Rightarrow> [[x]]
            | y # ys \<Rightarrow> (x # y) # ys))"

fun str_join :: "char \<Rightarrow> string list \<Rightarrow> string" where
  "str_join c [] = []"
| "str_join c [x] = x"
| "str_join c (x # y # ys) = x @ c # str_join c (y # ys)"

text \<open>\<open>list.remove(x)\<close>: removes the first occurrence, raises \<open>ValueError\<close> when absent.\<close>

definition list_remove :: "'a \<Rightarrow> 'a list \<Rightarrow> exn + 'a list" where
  "list_remove x xs = (if x \<in> set xs then Inr (remove1 x xs) else Inl ValueError)"

section \<open>The registry (\<open>winreg\<close>)\<close>

text \<open>
  \<open>winreg\<close> is Python's standard library, not code of the repository.  The registry is a
  finite map from (root key, sub key path) to a key; a key holds named values and the
  access rights the process is granted on it.  An access mask is the set of the flags
  or-ed together in the source; \<open>KEY_WOW64_64KEY\<close> selects the 64-bit view and asks for
  no right.
\<close>

datatype hkey = HKEY_LOCAL_MACHINE | HKEY_CURRENT_USER | HKEY_OTHER nat

datatype access = KEY_READ | KEY_WRITE | KEY_WOW64_64KEY

datatype regvalue = REG_SZ string | REG_DWORD int

record regkey =
  vals :: "string \<rightharpoonup> regvalue"
  granted :: "access set"

type_synonym registry = "hkey \<times> string \<rightharpoonup> regkey"

record handle =
  hroot :: hkey
  hpath :: string
  haccess :: "access set"

definition OpenKey :: "registry \<Rightarrow> hkey \<Rightarrow> string \<Rightarrow> access set \<Rightarrow> exn + handle" where
  "OpenKey reg key sub_key acc =
     (case reg (key, sub_key) of
        None \<Rightarrow> Inl FileNotFoundError
      | Some k \<Rightarrow>
          if acc \<subseteq> insert KEY_WOW64_64KEY (granted k)
          then Inr \<lparr>hroot = key, hpath = sub_key, haccess = acc\<rparr>
          else Inl PermissionError)"

definition QueryValueEx :: "registry \<Rightarrow> handle \<Rightarrow> string \<Rightarrow> exn + regvalue" where
  "QueryValueEx reg h name =
     (case reg (hroot h, hpath h) of
        None \<Rightarrow> Inl FileNotFoundError
      | Some k \<Rightarrow>
          if KEY_READ \<notin> haccess h then Inl PermissionError
          else (case vals k name of
                  None \<Rightarrow> Inl FileNotFoundError
                | Some v \<Rightarrow> Inr v))"

definition SetValueEx :: "registry \<Rightarrow> handle \<Rightarrow> string \<Rightarrow> regvalue \<Rightarrow> exn + registry" where
  "SetValueEx reg h name v =
     (case reg (hroot h, hpath h) of
        None \<Rightarrow> Inl FileNotFoundError
      | Some k \<Rightarrow>
          if KEY_WRITE \<notin> haccess h then Inl PermissionError
          else Inr (reg((hroot h, hpath h) \<mapsto> k\<lparr>vals := (vals k)(name \<mapsto> v)\<rparr>)))"

text \<open>
  \<open>CreateKey\<close> opens the key for writing, creating it first when it is missing and the
  process may create it there.
\<close>

definition CreateKey ::
  "registry \<Rightarrow> (hkey \<times> string \<Rightarrow> bool) \<Rightarrow> hkey \<Rightarrow> string \<Rightarrow> exn + registry \<times> handle" where
  "CreateKey reg may key sub_key =
     (case reg (key, sub_key) of
        Some k \<Rightarrow>
          if KEY_WRITE \<in> granted k
          then Inr (reg, \<lparr>hroot = key, hpath = sub_key, haccess = {KEY_WRITE}\<rparr>)
          else Inl PermissionError
      | None \<Rightarrow>
          if may (key, sub_key)
          then Inr (reg((key, sub_key) \<mapsto> \<lparr>vals = Map.empty, granted = {KEY_READ, KEY_WRITE}\<rparr>),
                    \<lparr>hroot = key, hpath = sub_key, haccess = {KEY_WRITE}\<rparr>)
          else Inl PermissionError)"

section \<open>Keyboard input (\<open>winUser\<close>)\<close>

text \<open>
  Modelled from the spec: \<open>winUser\<close>, the module that gives the virtual key codes, the
  \<open>Input\<close> structure, \<open>getAsyncKeyState\<close> and \<open>SendInput\<close>, is not among the sources at hand.
  The spec only speaks of the synthetic key chord sent to the system, so the constants
  have the values of the Windows API that the module wraps, and an \<open>Input\<close> structure is
  created zeroed: \<open>dwFlags = 0\<close> is a key press.
\<close>

definition VK_SHIFT :: int where "VK_SHIFT = 16"
definition VK_CONTROL :: int where "VK_CONTROL = 17"
definition VK_MENU :: int where "VK_MENU = 18"
definition INPUT_KEYBOARD :: int where "INPUT_KEYBOARD = 1"
definition KEYEVENTF_KEYUP :: int where "KEYEVENTF_KEYUP = 2"

record Input =
  itype :: int
  wVk :: int
  dwFlags :: int

definition Input_new :: "int \<Rightarrow> Input" where
  "Input_new t = \<lparr>itype = t, wVk = 0, dwFlags = 0\<rparr>"

section \<open>The world the module acts on\<close>

datatype loglevel = DEBUG | ERROR

record world =
  registry :: registry
  mayCreate :: "hkey \<times> string \<Rightarrow> bool"
  asyncKeyState :: "int \<Rightarrow> int"
  sentInputs :: "Input list list"
  logged :: "(loglevel \<times> string) list"

definition log_debug :: "string \<Rightarrow> world \<Rightarrow> world" where
  "log_debug msg w = w\<lparr>logged := logged w @ [(DEBUG, msg)]\<rparr>"

definition log_error :: "string \<Rightarrow> world \<Rightarrow> world" where
  "log_error msg w = w\<lparr>logged := logged w @ [(ERROR, msg)]\<rparr>"

definition getAsyncKeyState :: "world \<Rightarrow> int \<Rightarrow> int" where
  "getAsyncKeyState w vk = asyncKeyState w vk"

text \<open>
  What the system does with the events is neither code of the repository nor described
  by the spec.  To say what a sequence of key events leaves of the keys' states, the
  events are read in the plain way: a key is down when bit 15 of its asynchronous state
  is set, which is the bit that \<open>notify\<close> tests; the events take effect in order; a key-up
  event clears that bit of its key and any other keyboard event sets it.
\<close>

definition down_in :: "(int \<Rightarrow> int) \<Rightarrow> int \<Rightarrow> bool" where
  "down_in st vk = (st vk AND 32768 \<noteq> 0)"

definition isDown :: "world \<Rightarrow> int \<Rightarrow> bool" where
  "isDown w vk = down_in (asyncKeyState w) vk"

definition inject :: "Input \<Rightarrow> (int \<Rightarrow> int) \<Rightarrow> (int \<Rightarrow> int)" where
  "inject i st =
     (if itype i \<noteq> INPUT_KEYBOARD then st
      else if dwFlags i AND KEYEVENTF_KEYUP \<noteq> 0
           then st(wVk i := st (wVk i) AND NOT 32768)
           else st(wVk i := st (wVk i) OR 32768))"

definition SendInput :: "Input list \<Rightarrow> world \<Rightarrow> world" where
  "SendInput inputs w =
     w\<lparr>asyncKeyState := fold inject inputs (asyncKeyState w),
       sentInputs := sentInputs w @ [inputs]\<rparr>"

section \<open>easeOfAccess.py\<close>

text \<open>The backslash of the registry paths, written by its code point.\<close>

definition backslash :: char where
  "backslash = CHR 0x5C"

definition ROOT_KEY :: string where
  "ROOT_KEY = ''Software'' @ backslash # ''Microsoft'' @ backslash # ''Windows NT''
     @ backslash # ''CurrentVersion'' @ backslash # ''Accessibility''"

definition APP_KEY_NAME :: string where
  "APP_KEY_NAME = ''nvda_nvda_v1''"

definition APP_KEY_PATH :: string where
  "APP_KEY_PATH = ROOT_KEY @ backslash # ''ATs'' @ backslash # APP_KEY_NAME"

definition isRegistered :: "world \<Rightarrow> (exn + bool) \<times> world" where
  "isRegistered w =
     (case OpenKey (registry w) HKEY_LOCAL_MACHINE APP_KEY_PATH {KEY_READ, KEY_WOW64_64KEY} of
        Inr k \<Rightarrow> (Inr True, w)
      | Inl e \<Rightarrow>
          if e = FileNotFoundError
          then (Inr False, log_debug ''Unable to find AT registry key'' w)
          else if isWindowsError e
          then (Inr False, log_error ''Unable to open AT registry key'' w)
          else (Inl e, w))"

text \<open>
  The keys of \<open>notify\<close>: the held modifiers, marked as unwanted, then the two keys of the
  chord, marked as desired.
\<close>

definition notify_keys :: "world \<Rightarrow> (int \<times> bool) list" where
  "notify_keys w =
     foldl (\<lambda>keys vk. if getAsyncKeyState w vk AND 32768 \<noteq> 0 then keys @ [(vk, False)] else keys)
       [] [VK_SHIFT, VK_CONTROL, VK_MENU]
     @ [(0x5B, True)] @ [(0x55, True)]"

definition release_unwanted :: "int \<times> bool \<Rightarrow> Input" where
  "release_unwanted k =
     (case k of (vk, desired) \<Rightarrow>
        let input = (Input_new INPUT_KEYBOARD)\<lparr>wVk := vk\<rparr>
        in if \<not> desired then input\<lparr>dwFlags := KEYEVENTF_KEYUP\<rparr> else input)"

definition release_desired :: "int \<times> bool \<Rightarrow> Input" where
  "release_desired k =
     (case k of (vk, desired) \<Rightarrow>
        let input = (Input_new INPUT_KEYBOARD)\<lparr>wVk := vk\<rparr>
        in if desired then input\<lparr>dwFlags := KEYEVENTF_KEYUP\<rparr> else input)"

definition notify_inputs :: "(int \<times> bool) list \<Rightarrow> Input list" where
  "notify_inputs keys =
     (let inputs = foldl (\<lambda>inputs k. inputs @ [release_unwanted k]) [] keys
      in foldl (\<lambda>inputs k. inputs @ [release_desired k]) inputs (rev keys))"

definition ACCESSIBILITY_TEMP :: string where
  "ACCESSIBILITY_TEMP = ''Software'' @ backslash # ''Microsoft'' @ backslash # ''Windows NT''
     @ backslash # ''CurrentVersion'' @ backslash # ''AccessibilityTemp''"

definition notify :: "int \<Rightarrow> world \<Rightarrow> (exn + unit) \<times> world" where
  "notify signal w =
     (case isRegistered w of
        (Inl e, w1) \<Rightarrow> (Inl e, w1)
      | (Inr registered, w1) \<Rightarrow>
          if \<not> registered then (Inr (), w1)
          else
            (case CreateKey (registry w1) (mayCreate w1) HKEY_CURRENT_USER ACCESSIBILITY_TEMP of
               Inl e \<Rightarrow> (Inl e, w1)
             | Inr (reg2, rkey) \<Rightarrow>
                 (case SetValueEx reg2 rkey APP_KEY_NAME (REG_DWORD signal) of
                    Inl e \<Rightarrow> (Inl e, w1\<lparr>registry := reg2\<rparr>)
                  | Inr reg3 \<Rightarrow>
                      let w3 = w1\<lparr>registry := reg3\<rparr>;
                          keys = notify_keys w3;
                          inputs = notify_inputs keys
                      in (Inr (), SendInput inputs w3))))"

text \<open>
  \<open>value.split(",")\<close> on the value read: only a string has the method.  The function
  \<open>_getAutoStartConfiguration\<close> is \<open>getAutoStartConfiguration\<close> here, as
  \<open>_generateTimeRangeText\<close> and \<open>_get_name\<close> below lose their underscore: a name cannot
  start with one.
\<close>

definition value_split :: "regvalue \<Rightarrow> exn + string list" where
  "value_split v =
     (case v of
        REG_SZ s \<Rightarrow> Inr (str_split (CHR '','') s)
      | REG_DWORD n \<Rightarrow> Inl AttributeError)"

definition getAutoStartConfiguration :: "hkey \<Rightarrow> world \<Rightarrow> (exn + string list) \<times> world" where
  "getAutoStartConfiguration hkey w =
     (case OpenKey (registry w) hkey ROOT_KEY {KEY_READ, KEY_WOW64_64KEY} of
        Inl e \<Rightarrow>
          if e = FileNotFoundError
          then (Inr [], log_debug ''Unable to find existing auto start registry key'' w)
          else if isWindowsError e
          then (Inr [], log_error ''Unable to open auto start registry key for reading'' w)
          else (Inl e, w)
      | Inr k \<Rightarrow>
          (case (case QueryValueEx (registry w) k ''Configuration'' of
                   Inl e \<Rightarrow> Inl e
                 | Inr v \<Rightarrow> value_split v) of
             Inl e \<Rightarrow>
               if e = FileNotFoundError
               then (Inr [], log_debug ''Unable to find auto start configuration'' w)
               else if isWindowsError e
               then (Inr [], log_error ''Unable to query auto start configuration'' w)
               else (Inl e, w)
           | Inr conf \<Rightarrow>
               (case conf of
                  [] \<Rightarrow> (Inl IndexError, w)
                | c # cs \<Rightarrow> if c = [] then (Inr cs, w) else (Inr conf, w))))"

definition willAutoStart :: "hkey \<Rightarrow> world \<Rightarrow> (exn + bool) \<times> world" where
  "willAutoStart hkey w =
     (case getAutoStartConfiguration hkey w of
        (Inl e, w1) \<Rightarrow> (Inl e, w1)
      | (Inr conf, w1) \<Rightarrow> (Inr (APP_KEY_NAME \<in> set conf), w1))"

text \<open>
  The local variable \<open>changed\<close> of \<open>setAutoStart\<close> is bound only in the branches that
  assign it: \<open>None\<close> is the unbound variable, and reading it raises \<open>UnboundLocalError\<close>.
\<close>

definition setAutoStart_update :: "bool \<Rightarrow> string list \<Rightarrow> string list \<times> bool option" where
  "setAutoStart_update enable conf =
     (let currentlyEnabled = APP_KEY_NAME \<in> set conf
      in if enable \<and> \<not> currentlyEnabled then (conf @ [APP_KEY_NAME], Some True)
         else if \<not> enable then
           (case list_remove APP_KEY_NAME conf of
              Inr conf' \<Rightarrow> (conf', Some True)
            | Inl e \<Rightarrow> (conf, None))
         else (conf, None))"

definition setAutoStart :: "hkey \<Rightarrow> bool \<Rightarrow> world \<Rightarrow> (exn + unit) \<times> world" where
  "setAutoStart hkey enable w =
     (case getAutoStartConfiguration hkey w of
        (Inl e, w1) \<Rightarrow> (Inl e, w1)
      | (Inr conf0, w1) \<Rightarrow>
          (case setAutoStart_update enable conf0 of
             (conf, None) \<Rightarrow> (Inl UnboundLocalError, w1)
           | (conf, Some changed) \<Rightarrow>
               if changed then
                 (case OpenKey (registry w1) hkey ROOT_KEY {KEY_READ, KEY_WRITE, KEY_WOW64_64KEY} of
                    Inl e \<Rightarrow> (Inl e, w1)
                  | Inr k \<Rightarrow>
                      (case SetValueEx (registry w1) k ''Configuration''
                              (REG_SZ (str_join (CHR '','') conf)) of
                         Inl e \<Rightarrow> (Inl e, w1)
                       | Inr reg' \<Rightarrow> (Inr (), w1\<lparr>registry := reg'\<rparr>)))
               else (Inr (), w1)))"

section \<open>appModules/outlook.py\<close>

subsection \<open>\<open>AppModule.event_NVDAObject_init\<close>\<close>

text \<open>
  \<open>controlTypes\<close> and the object classes are the host's.  An object is the record of the
  attributes the handler reads and writes; \<open>ref\<close> is the object as a window, of the type
  \<open>'o\<close> of the host's objects, and \<open>Window._get_parent\<close> is a parameter, a function on
  them.  \<open>isMSHTML\<close> is \<open>isinstance(obj, MSHTML)\<close>.
\<close>

datatype role =
    ROLE_UNKNOWN
  | ROLE_EDITABLETEXT
  | ROLE_PANE
  | ROLE_MENUBAR
  | ROLE_MENUITEM
  | ROLE_TREEVIEW
  | ROLE_TREEVIEWITEM
  | ROLE_LIST
  | ROLE_LISTITEM
  | ROLE_GRAPHIC
  | ROLE_OTHER nat

record 'o NVDAObject =
  ref :: 'o
  role :: role
  windowClassName :: string
  windowControlID :: int
  isMSHTML :: bool
  parent :: 'o
  description :: "string option"
  shouldAllowIAccessibleFocusEvent :: bool

definition event_NVDAObject_init :: "('o \<Rightarrow> 'o) \<Rightarrow> 'o NVDAObject \<Rightarrow> 'o NVDAObject" where
  "event_NVDAObject_init Window_get_parent obj0 =
     (let r = role obj0;
          cls = windowClassName obj0;
          controlID = windowControlID obj0;
          obj1 = (if r = ROLE_EDITABLETEXT \<and> cls = ''RichEdit20W'' \<and> controlID = 8224
                  then obj0\<lparr>parent := Window_get_parent (Window_get_parent (ref obj0))\<rparr>
                  else obj0);
          obj2 = (if cls = ''Internet Explorer_Server'' \<and> r = ROLE_PANE \<and> \<not> isMSHTML obj1
                  then obj1\<lparr>parent := Window_get_parent (Window_get_parent (ref obj1))\<rparr>
                  else obj1);
          obj3 = (if r \<in> set [ROLE_MENUBAR, ROLE_MENUITEM]
                  then obj2\<lparr>description := None\<rparr>
                  else obj2);
          obj4 = (if r \<in> set [ROLE_TREEVIEW, ROLE_TREEVIEWITEM, ROLE_LIST, ROLE_LISTITEM]
                  then obj3\<lparr>shouldAllowIAccessibleFocusEvent := True\<rparr>
                  else obj3)
      in if ((cls = ''SUPERGRID'' \<and> controlID = 4704) \<or> (cls = ''rctrl_renwnd32'' \<and> controlID = 109))
            \<and> r = ROLE_UNKNOWN
         then obj4\<lparr>role := ROLE_LISTITEM\<rparr>
         else obj4)"

subsection \<open>\<open>CalendarView._generateTimeRangeText\<close>\<close>

text \<open>
  A time is a calendar date and a time of day; \<open>date()\<close> is its date.  The two
  \<open>winKernel\<close> formatters (the time without seconds, the long date) are parameters.
  The class variable \<open>_lastStartDate\<close> is passed in and returned; \<open>None\<close> is the only
  value of it that Python takes for false.
\<close>

record pydate =
  year :: int
  month :: int
  day :: int

record pytime =
  date :: pydate
  hour :: int
  minute :: int
  second :: int

definition generateTimeRangeText ::
  "(pytime \<Rightarrow> string) \<Rightarrow> (pytime \<Rightarrow> string) \<Rightarrow> pydate option \<Rightarrow> pytime \<Rightarrow> pytime
     \<Rightarrow> string \<times> pydate option" where
  "generateTimeRangeText GetTimeFormat GetDateFormat lastStartDate startTime endTime =
     (let startText0 = GetTimeFormat startTime;
          endText0 = GetTimeFormat endTime;
          startDate = date startTime;
          endDate = date endTime;
          startText = (if lastStartDate = None \<or> Some startDate \<noteq> lastStartDate \<or> endDate \<noteq> startDate
                       then GetDateFormat startTime @ '' '' @ startText0
                       else startText0);
          endText = (if endDate \<noteq> startDate
                     then GetDateFormat endTime @ '' '' @ endText0
                     else endText0)
      in (startText @ '' to '' @ endText, Some startDate))"

subsection \<open>\<open>UIAGridRow._get_name\<close>\<close>

text \<open>
  A read of a COM property gives a value or raises.  \<open>selection.attachments.count\<close> is two
  reads in a row, in one \<open>try\<close>.
\<close>

record attachments =
  count :: "exn + int"

record selection =
  unread :: "exn + bool"
  attachments :: "exn + attachments"
  importance :: "exn + int"
  messageClass :: "exn + string option"

text \<open>\<open>try: x = read  except COMError: x = dflt\<close>: any other exception goes on.\<close>

definition except_COMError :: "exn + 'a \<Rightarrow> 'a \<Rightarrow> exn + 'a" where
  "except_COMError rd dflt =
     (case rd of
        Inr v \<Rightarrow> Inr v
      | Inl e \<Rightarrow> if e = COMError then Inr dflt else Inl e)"

text \<open>
  The module's \<open>importanceLabels\<close>; \<open>tr\<close> is the translation function \<open>_\<close> of the host.
\<close>

definition importanceLabels :: "(string \<Rightarrow> string) \<Rightarrow> int \<rightharpoonup> string" where
  "importanceLabels tr =
     [2 \<mapsto> tr ''high importance'',
      0 \<mapsto> tr ''low importance'']"

text \<open>Python's truth of an optional string: neither \<open>None\<close> nor empty.\<close>

definition truthy :: "string option \<Rightarrow> bool" where
  "truthy s = (case s of None \<Rightarrow> False | Some t \<Rightarrow> t \<noteq> [])"

text \<open>The labels that the selected item adds to the name.\<close>

definition selection_labels :: "(string \<Rightarrow> string) \<Rightarrow> selection \<Rightarrow> exn + string list" where
  "selection_labels tr sel =
     (case except_COMError (unread sel) False of
        Inl e \<Rightarrow> Inl e
      | Inr unread' \<Rightarrow>
     let textList1 = (if unread' then [tr ''unread''] else []) in
     (case except_COMError
             (case attachments sel of Inl e \<Rightarrow> Inl e | Inr a \<Rightarrow> count a) 0 of
        Inl e \<Rightarrow> Inl e
      | Inr attachmentCount \<Rightarrow>
     let textList2 = (if attachmentCount > 0 then textList1 @ [tr ''has attachment''] else textList1) in
     (case except_COMError (importance sel) 1 of
        Inl e \<Rightarrow> Inl e
      | Inr importance' \<Rightarrow>
     let importanceLabel = importanceLabels tr importance';
         textList3 = (if truthy importanceLabel then textList2 @ [the importanceLabel] else textList2) in
     (case except_COMError (messageClass sel) None of
        Inl e \<Rightarrow> Inl e
      | Inr messageClass' \<Rightarrow>
          Inr (if messageClass' = Some ''IPM.Schedule.Meeting.Request''
               then textList3 @ [tr ''meeting request'']
               else textList3)))))"

datatype state = STATE_EXPANDED | STATE_COLLAPSED | STATE_OTHER nat

record child =
  child_isUIAGridRow :: bool
  child_role :: role
  child_name :: "string option"
  child_columnHeaderText :: "string option"

record UIAGridRow =
  states :: "state set"
  nativeOm :: bool
  selectionItem :: "exn + selection option"
  children :: "child list"

text \<open>The body of the loop over the children: the text a child adds, if any.\<close>

definition child_text :: "bool \<Rightarrow> child \<Rightarrow> string list" where
  "child_text reportTableHeaders c =
     (if child_isUIAGridRow c \<or> child_role c = ROLE_GRAPHIC \<or> \<not> truthy (child_name c) then []
      else
        let text = (if reportTableHeaders \<and> truthy (child_columnHeaderText c)
                    then the (child_columnHeaderText c) @ '' '' @ the (child_name c)
                    else the (child_name c))
        in if text \<noteq> [] then [text @ '',''] else [])"

text \<open>
  \<open>_get_name\<close>.  \<open>stateLabels\<close> is the host's table of state labels, \<open>reportTableHeaders\<close>
  the configuration flag; \<open>nativeOm\<close> says whether the application object is there, and
  \<open>selectionItem\<close> is the read \<open>activeExplorer().selection.item(1)\<close>.
\<close>

definition get_name ::
  "(string \<Rightarrow> string) \<Rightarrow> (state \<Rightarrow> string) \<Rightarrow> bool \<Rightarrow> UIAGridRow \<Rightarrow> exn + string" where
  "get_name tr stateLabels reportTableHeaders self =
     (let textList0 =
            (if STATE_EXPANDED \<in> states self then [stateLabels STATE_EXPANDED]
             else if STATE_COLLAPSED \<in> states self then [stateLabels STATE_COLLAPSED]
             else [])
      in case (if nativeOm self then except_COMError (selectionItem self) None else Inr None) of
           Inl e \<Rightarrow> Inl e
         | Inr sel \<Rightarrow>
             (case (case sel of
                      None \<Rightarrow> Inr []
                    | Some s \<Rightarrow> selection_labels tr s) of
                Inl e \<Rightarrow> Inl e
              | Inr labels \<Rightarrow>
                  Inr (str_join (CHR '' '')
                         (foldl (\<lambda>textList c. textList @ child_text reportTableHeaders c)
                            (textList0 @ labels) (children self)))))"

section \<open>Vocabulary of the properties\<close>

text \<open>A call that returned, as opposed to one that raised.\<close>

definition returned :: "exn + 'a \<Rightarrow> bool" where
  "returned r = (case r of Inl e \<Rightarrow> False | Inr v \<Rightarrow> True)"

text \<open>A call that raised a \<open>WindowsError\<close> (a \<open>FileNotFoundError\<close> is one).\<close>

definition raisedWindowsError :: "exn + 'a \<Rightarrow> bool" where
  "raisedWindowsError r = (case r of Inl e \<Rightarrow> isWindowsError e | Inr v \<Rightarrow> False)"

text \<open>A COM read that gives a value or fails with \<open>COMError\<close>, and with nothing else.\<close>

definition valueOrCOMError :: "exn + 'a \<Rightarrow> bool" where
  "valueOrCOMError r = (case r of Inl e \<Rightarrow> e = COMError | Inr v \<Rightarrow> True)"

text \<open>The four property reads of \<open>_get_name\<close> on the selected item are such reads.\<close>

definition readsValueOrCOMError :: "selection \<Rightarrow> bool" where
  "readsValueOrCOMError sel =
     (valueOrCOMError (unread sel)
      \<and> valueOrCOMError (case attachments sel of Inl e \<Rightarrow> Inl e | Inr a \<Rightarrow> count a)
      \<and> valueOrCOMError (importance sel)
      \<and> valueOrCOMError (messageClass sel))"

text \<open>The keyboard events of the chord: a key-up and a key-down of a virtual key.\<close>

definition key_up :: "int \<Rightarrow> Input" where
  "key_up vk = \<lparr>itype = INPUT_KEYBOARD, wVk = vk, dwFlags = KEYEVENTF_KEYUP\<rparr>"

definition key_down :: "int \<Rightarrow> Input" where
  "key_down vk = \<lparr>itype = INPUT_KEYBOARD, wVk = vk, dwFlags = 0\<rparr>"

text \<open>The list that \<open>_getAutoStartConfiguration\<close> makes of the elements of the split.\<close>

definition drop_leading_empty :: "string list \<Rightarrow> string list" where
  "drop_leading_empty conf = (case conf of [] \<Rightarrow> [] | c # cs \<Rightarrow> if c = [] then cs else c # cs)"

section \<open>Concrete worlds\<close>

text \<open>
  A world with the given registry and keyboard state, where keys may be created, nothing
  has been sent and nothing logged; a key with the given values that may be read and
  written.
\<close>

definition world_of :: "registry \<Rightarrow> (int \<Rightarrow> int) \<Rightarrow> world" where
  "world_of reg keyboard =
     \<lparr>registry = reg, mayCreate = (\<lambda>k. True), asyncKeyState = keyboard,
      sentInputs = [], logged = []\<rparr>"

definition open_key :: "(string \<rightharpoonup> regvalue) \<Rightarrow> regkey" where
  "open_key vs = \<lparr>vals = vs, granted = {KEY_READ, KEY_WRITE}\<rparr>"

definition no_keys_down :: "int \<Rightarrow> int" where
  "no_keys_down vk = 0"

definition shift_and_alt_down :: "int \<Rightarrow> int" where
  "shift_and_alt_down vk = (if vk = VK_SHIFT \<or> vk = VK_MENU then 32768 else 0)"

text \<open>No key at all in the registry.\<close>

definition empty_world :: world where
  "empty_world = world_of Map.empty no_keys_down"

text \<open>
  The Accessibility root key under \<open>HKEY_LOCAL_MACHINE\<close> holds the given \<open>Configuration\<close>
  string and nothing else.
\<close>

definition config_world :: "string \<Rightarrow> world" where
  "config_world s =
     world_of [(HKEY_LOCAL_MACHINE, ROOT_KEY) \<mapsto> open_key [''Configuration'' \<mapsto> REG_SZ s]]
       no_keys_down"

text \<open>The same key and value, where the process is granted no access to the key.\<close>

definition locked_config_world :: "string \<Rightarrow> world" where
  "locked_config_world s =
     world_of [(HKEY_LOCAL_MACHINE, ROOT_KEY) \<mapsto>
                 \<lparr>vals = [''Configuration'' \<mapsto> REG_SZ s], granted = {}\<rparr>]
       no_keys_down"

text \<open>The key without its \<open>Configuration\<close> value.\<close>

definition unconfigured_world :: world where
  "unconfigured_world =
     world_of [(HKEY_LOCAL_MACHINE, ROOT_KEY) \<mapsto> open_key Map.empty] no_keys_down"

text \<open>The application is registered as an assistive technology; the keyboard is as given.\<close>

definition registered_world :: "(int \<Rightarrow> int) \<Rightarrow> world" where
  "registered_world keyboard =
     world_of [(HKEY_LOCAL_MACHINE, APP_KEY_PATH) \<mapsto> open_key Map.empty] keyboard"

text \<open>Objects, times and a grid row to run the email and calendar handlers on.\<close>

definition plain_object :: "role \<Rightarrow> string \<Rightarrow> int \<Rightarrow> nat NVDAObject" where
  "plain_object r cls cid =
     \<lparr>ref = 0, role = r, windowClassName = cls, windowControlID = cid, isMSHTML = False,
      parent = 1, description = Some ''toolbar'', shouldAllowIAccessibleFocusEvent = False\<rparr>"

definition at_time :: "int \<Rightarrow> int \<Rightarrow> int \<Rightarrow> pytime" where
  "at_time d h m = \<lparr>date = \<lparr>year = 2024, month = 5, day = d\<rparr>, hour = h, minute = m, second = 0\<rparr>"

definition clock :: "pytime \<Rightarrow> string" where
  "clock t = (if hour t < 12 then ''am'' else ''pm'')"

definition weekday :: "pytime \<Rightarrow> string" where
  "weekday t = (if day (date t) = 6 then ''Monday'' else ''Tuesday'')"

definition failing_selection :: selection where
  "failing_selection =
     \<lparr>unread = Inl COMError, attachments = Inl COMError, importance = Inl COMError,
      messageClass = Inl COMError\<rparr>"

definition row_of :: "selection \<Rightarrow> UIAGridRow" where
  "row_of sel =
     \<lparr>states = {STATE_EXPANDED}, nativeOm = True, selectionItem = Inr (Some sel),
      children = [\<lparr>child_isUIAGridRow = False, child_role = ROLE_OTHER 0,
                   child_name = Some ''Hello'', child_columnHeaderText = Some ''Subject''\<rparr>]\<rparr>"

definition state_name :: "state \<Rightarrow> string" where
  "state_name s = (if s = STATE_EXPANDED then ''expanded'' else ''collapsed'')"

section \<open>Splitting and joining\<close>

lemma str_split_ne: "str_split c s \<noteq> []"
  by (induction s) (auto split: list.splits)

lemma str_split_nosep: "x \<in> set (str_split c s) \<Longrightarrow> c \<notin> set x"
  by (induction s arbitrary: x) (auto split: list.splits if_splits)

lemma str_split_nosep_id: "c \<notin> set x \<Longrightarrow> str_split c x = [x]"
  by (induction x) auto

lemma str_split_append: "c \<notin> set x \<Longrightarrow> str_split c (x @ c # r) = x # str_split c r"
  by (induction x) auto

lemma str_split_join:
  "xs \<noteq> [] \<Longrightarrow> \<forall>x\<in>set xs. c \<notin> set x \<Longrightarrow> str_split c (str_join c xs) = xs"
  by (induction c xs rule: str_join.induct) (auto simp: str_split_nosep_id str_split_append)

lemma APP_KEY_NAME_nosep: "CHR '','' \<notin> set APP_KEY_NAME"
  by (simp add: APP_KEY_NAME_def)

lemma APP_KEY_NAME_nonempty: "APP_KEY_NAME \<noteq> []"
  by (simp add: APP_KEY_NAME_def)

lemma count_list_remove1: "count_list (remove1 x xs) x = count_list xs x - 1"
  by (induction xs) auto

section \<open>Reading the auto-start configuration\<close>

lemma OpenKey_Inr:
  "OpenKey reg key sub acc = Inr h \<longleftrightarrow>
     (\<exists>k. reg (key, sub) = Some k \<and> acc \<subseteq> insert KEY_WOW64_64KEY (granted k))
     \<and> h = \<lparr>hroot = key, hpath = sub, haccess = acc\<rparr>"
  by (auto simp: OpenKey_def split: option.splits)

lemma OpenKey_Inl: "OpenKey reg key sub acc = Inl e \<Longrightarrow> isWindowsError e"
  by (auto simp: OpenKey_def isWindowsError_def split: option.splits if_splits)

lemma QueryValueEx_Inl: "QueryValueEx reg h name = Inl e \<Longrightarrow> isWindowsError e"
  by (auto simp: QueryValueEx_def isWindowsError_def split: option.splits if_splits)

lemma getAutoStartConfiguration_registry:
  "registry (snd (getAutoStartConfiguration hkey w)) = registry w"
  by (simp add: getAutoStartConfiguration_def log_debug_def log_error_def
      split: sum.splits list.splits)

text \<open>What the function returns when both of its registry calls succeed on a string.\<close>

lemma getAutoStartConfiguration_read:
  assumes "OpenKey (registry w) hkey ROOT_KEY {KEY_READ, KEY_WOW64_64KEY} = Inr k"
    and "QueryValueEx (registry w) k ''Configuration'' = Inr (REG_SZ s)"
  shows "getAutoStartConfiguration hkey w = (Inr (drop_leading_empty (str_split (CHR '','') s)), w)"
proof -
  obtain c cs where sp: "str_split (CHR '','') s = c # cs"
    using str_split_ne [of "CHR '',''" s] by (cases "str_split (CHR '','') s") auto
  show ?thesis
    by (simp add: getAutoStartConfiguration_def assms value_split_def sp drop_leading_empty_def)
qed

lemma drop_leading_empty_subset: "set (drop_leading_empty xs) \<subseteq> set xs"
  by (auto simp: drop_leading_empty_def split: list.splits if_splits)

lemma getAutoStartConfiguration_nosep:
  assumes "fst (getAutoStartConfiguration hkey w) = Inr conf" and "x \<in> set conf"
  shows "CHR '','' \<notin> set x"
proof (cases "OpenKey (registry w) hkey ROOT_KEY {KEY_READ, KEY_WOW64_64KEY}")
  case (Inl e)
  with assms OpenKey_Inl [OF Inl] show ?thesis
    by (auto simp: getAutoStartConfiguration_def split: if_splits)
next
  case (Inr k)
  show ?thesis
  proof (cases "QueryValueEx (registry w) k ''Configuration''")
    case (Inl e)
    with assms Inr QueryValueEx_Inl [OF Inl] show ?thesis
      by (auto simp: getAutoStartConfiguration_def split: if_splits)
  next
    case qr: (Inr v)
    show ?thesis
    proof (cases v)
      case (REG_SZ s)
      with assms getAutoStartConfiguration_read [OF Inr] qr
      have "x \<in> set (str_split (CHR '','') s)"
        using drop_leading_empty_subset by fastforce
      then show ?thesis by (rule str_split_nosep)
    next
      case (REG_DWORD n)
      with assms Inr qr show ?thesis
        by (simp add: getAutoStartConfiguration_def value_split_def isWindowsError_def)
    qed
  qed
qed

text \<open>Reading the configuration back after a successful write of \<open>s\<close>.\<close>

lemma read_after_write:
  assumes "OpenKey reg hkey ROOT_KEY {KEY_READ, KEY_WRITE, KEY_WOW64_64KEY} = Inr k"
    and "SetValueEx reg k ''Configuration'' (REG_SZ s) = Inr reg'"
    and "registry w' = reg'"
  shows "fst (getAutoStartConfiguration hkey w') = Inr (drop_leading_empty (str_split (CHR '','') s))"
proof -
  from assms(1) obtain key where
    key: "reg (hkey, ROOT_KEY) = Some key" and gr: "KEY_READ \<in> granted key"
    and k: "k = \<lparr>hroot = hkey, hpath = ROOT_KEY, haccess = {KEY_READ, KEY_WRITE, KEY_WOW64_64KEY}\<rparr>"
    by (auto simp: OpenKey_Inr)
  from assms(2) key k have reg':
    "reg' = reg((hkey, ROOT_KEY) \<mapsto> key\<lparr>vals := (vals key)(''Configuration'' \<mapsto> REG_SZ s)\<rparr>)"
    by (simp add: SetValueEx_def)
  have o: "OpenKey (registry w') hkey ROOT_KEY {KEY_READ, KEY_WOW64_64KEY}
             = Inr \<lparr>hroot = hkey, hpath = ROOT_KEY, haccess = {KEY_READ, KEY_WOW64_64KEY}\<rparr>"
    using gr by (auto simp: OpenKey_def reg' assms(3))
  have q: "QueryValueEx (registry w')
             \<lparr>hroot = hkey, hpath = ROOT_KEY, haccess = {KEY_READ, KEY_WOW64_64KEY}\<rparr>
             ''Configuration'' = Inr (REG_SZ s)"
    by (simp add: QueryValueEx_def reg' assms(3))
  show ?thesis
    by (simp add: getAutoStartConfiguration_read [OF o q])
qed

lemma member_readback:
  assumes "\<forall>x\<in>set conf. CHR '','' \<notin> set x"
  shows "APP_KEY_NAME \<in> set (drop_leading_empty (str_split (CHR '','') (str_join (CHR '','') conf)))
         \<longleftrightarrow> APP_KEY_NAME \<in> set conf"
proof (cases conf)
  case Nil
  then show ?thesis by (simp add: drop_leading_empty_def)
next
  case (Cons a as)
  then have "str_split (CHR '','') (str_join (CHR '','') conf) = conf"
    using assms by (intro str_split_join) auto
  then show ?thesis using Cons APP_KEY_NAME_nonempty by (auto simp: drop_leading_empty_def)
qed

text \<open>The branches of \<open>setAutoStart\<close> that bind \<open>changed\<close>, and the list they write.\<close>

lemma setAutoStart_update_cases:
  "setAutoStart_update enable conf =
     (if enable \<and> APP_KEY_NAME \<notin> set conf then (conf @ [APP_KEY_NAME], Some True)
      else if \<not> enable \<and> APP_KEY_NAME \<in> set conf then (remove1 APP_KEY_NAME conf, Some True)
      else (conf, None))"
  by (simp add: setAutoStart_update_def Let_def list_remove_def)

lemma setAutoStart_returned:
  assumes "fst (setAutoStart hkey enable w) = Inr ()"
  obtains conf0 conf k reg' w1 where
    "getAutoStartConfiguration hkey w = (Inr conf0, w1)"
    "setAutoStart_update enable conf0 = (conf, Some True)"
    "OpenKey (registry w1) hkey ROOT_KEY {KEY_READ, KEY_WRITE, KEY_WOW64_64KEY} = Inr k"
    "SetValueEx (registry w1) k ''Configuration'' (REG_SZ (str_join (CHR '','') conf)) = Inr reg'"
    "snd (setAutoStart hkey enable w) = w1\<lparr>registry := reg'\<rparr>"
proof -
  obtain r w1 where g: "getAutoStartConfiguration hkey w = (r, w1)" by fastforce
  with assms obtain conf0 where r: "r = Inr conf0"
    by (cases r) (auto simp: setAutoStart_def)
  obtain conf ch where u: "setAutoStart_update enable conf0 = (conf, ch)" by fastforce
  have ch: "ch = Some True"
    using u by (auto simp: setAutoStart_update_cases split: if_splits)
       (use assms g r u in \<open>auto simp: setAutoStart_def\<close>)
  from assms g r u ch obtain k where
    o: "OpenKey (registry w1) hkey ROOT_KEY {KEY_READ, KEY_WRITE, KEY_WOW64_64KEY} = Inr k"
    by (cases "OpenKey (registry w1) hkey ROOT_KEY {KEY_READ, KEY_WRITE, KEY_WOW64_64KEY}")
       (auto simp: setAutoStart_def)
  from assms g r u ch o obtain reg' where
    s: "SetValueEx (registry w1) k ''Configuration'' (REG_SZ (str_join (CHR '','') conf)) = Inr reg'"
    by (cases "SetValueEx (registry w1) k ''Configuration'' (REG_SZ (str_join (CHR '','') conf))")
       (auto simp: setAutoStart_def)
  have "snd (setAutoStart hkey enable w) = w1\<lparr>registry := reg'\<rparr>"
    by (simp add: setAutoStart_def g r u ch o s)
  with g r u ch o s that show ?thesis by blast
qed

section \<open>Claims about \<open>setAutoStart\<close> and \<open>willAutoStart\<close>\<close>

lemmas eval_registry =
  OpenKey_def QueryValueEx_def SetValueEx_def CreateKey_def value_split_def
  world_of_def open_key_def log_debug_def log_error_def isWindowsError_def

lemmas eval_autostart =
  setAutoStart_def setAutoStart_update_cases getAutoStartConfiguration_def willAutoStart_def
  config_world_def empty_world_def unconfigured_world_def APP_KEY_NAME_def eval_registry

text \<open>
  C1, as amended.  When \<open>setAutoStart(hkey, b)\<close> returns without raising, the list it read
  held the identifier exactly when \<open>b\<close> is false, and the value it wrote is the join of
  that list with the identifier appended (enabling) or with its first occurrence removed
  (disabling); both hold whatever the list.  If moreover, for disabling, the identifier
  occurred at most once in the list, \<open>willAutoStart(hkey)\<close> afterwards returns \<open>b\<close>.
\<close>

theorem setAutoStart_then_willAutoStart:
  assumes ret: "fst (setAutoStart hkey b w) = Inr ()"
    and conf0: "fst (getAutoStartConfiguration hkey w) = Inr conf0"
  shows "(APP_KEY_NAME \<in> set conf0) = (\<not> b)
    \<and> (\<exists>key. registry (snd (setAutoStart hkey b w)) (hkey, ROOT_KEY) = Some key
          \<and> vals key ''Configuration'' =
              Some (REG_SZ (str_join (CHR '','')
                (if b then conf0 @ [APP_KEY_NAME] else remove1 APP_KEY_NAME conf0))))
    \<and> (b \<or> count_list conf0 APP_KEY_NAME \<le> 1
         \<longrightarrow> fst (willAutoStart hkey (snd (setAutoStart hkey b w))) = Inr b)"
proof -
  from ret obtain c0 conf k reg' w1 where
    g: "getAutoStartConfiguration hkey w = (Inr c0, w1)"
    and u: "setAutoStart_update b c0 = (conf, Some True)"
    and o: "OpenKey (registry w1) hkey ROOT_KEY {KEY_READ, KEY_WRITE, KEY_WOW64_64KEY} = Inr k"
    and s: "SetValueEx (registry w1) k ''Configuration'' (REG_SZ (str_join (CHR '','') conf)) = Inr reg'"
    and w': "snd (setAutoStart hkey b w) = w1\<lparr>registry := reg'\<rparr>"
    by (rule setAutoStart_returned)
  from g conf0 have c0: "c0 = conf0" by simp
  have absent: "(APP_KEY_NAME \<in> set conf0) = (\<not> b)"
    using u by (auto simp: setAutoStart_update_cases c0 split: if_splits)
  have conf: "conf = (if b then conf0 @ [APP_KEY_NAME] else remove1 APP_KEY_NAME conf0)"
    using u by (auto simp: setAutoStart_update_cases c0 split: if_splits)
  from o obtain key where key: "registry w1 (hkey, ROOT_KEY) = Some key"
    and k: "k = \<lparr>hroot = hkey, hpath = ROOT_KEY, haccess = {KEY_READ, KEY_WRITE, KEY_WOW64_64KEY}\<rparr>"
    by (auto simp: OpenKey_Inr)
  from s key k have reg': "reg' = (registry w1)((hkey, ROOT_KEY) \<mapsto>
      key\<lparr>vals := (vals key)(''Configuration'' \<mapsto> REG_SZ (str_join (CHR '','') conf))\<rparr>)"
    by (simp add: SetValueEx_def)
  have written: "\<exists>key. registry (snd (setAutoStart hkey b w)) (hkey, ROOT_KEY) = Some key
      \<and> vals key ''Configuration'' = Some (REG_SZ (str_join (CHR '','')
           (if b then conf0 @ [APP_KEY_NAME] else remove1 APP_KEY_NAME conf0)))"
    by (simp add: w' reg' conf)
  have nosep0: "\<forall>x\<in>set conf0. CHR '','' \<notin> set x"
    using getAutoStartConfiguration_nosep [OF conf0] by blast
  have nosep: "\<forall>x\<in>set conf. CHR '','' \<notin> set x"
    using nosep0 APP_KEY_NAME_nosep by (auto simp: conf dest: notin_set_remove1)
  have "registry (w1\<lparr>registry := reg'\<rparr>) = reg'" by simp
  from read_after_write [OF o s this] member_readback [OF nosep]
  have after: "fst (willAutoStart hkey (snd (setAutoStart hkey b w))) = Inr (APP_KEY_NAME \<in> set conf)"
    by (cases "getAutoStartConfiguration hkey (w1\<lparr>registry := reg'\<rparr>)")
       (auto simp: willAutoStart_def w')
  have will: "b \<or> count_list conf0 APP_KEY_NAME \<le> 1
         \<longrightarrow> fst (willAutoStart hkey (snd (setAutoStart hkey b w))) = Inr b"
  proof
    assume once: "b \<or> count_list conf0 APP_KEY_NAME \<le> 1"
    have "(APP_KEY_NAME \<in> set conf) = b"
    proof (cases b)
      case True
      then show ?thesis by (simp add: conf)
    next
      case False
      with once have "count_list conf0 APP_KEY_NAME \<le> 1" by simp
      then have "count_list conf APP_KEY_NAME = 0"
        using False by (simp add: conf count_list_remove1)
      then show ?thesis using False by (simp add: count_list_0_iff)
    qed
    with after show "fst (willAutoStart hkey (snd (setAutoStart hkey b w))) = Inr b"
      by simp
  qed
  show ?thesis
    by (intro conjI) (fact absent written will)+
qed

text \<open>
  The theorem at work: disabling on the list \<open>magnifierpane,nvda_nvda_v1\<close> finds the
  identifier, writes \<open>magnifierpane\<close>, and \<open>willAutoStart\<close> is false afterwards; disabling
  on the list \<open>nvda_nvda_v1,nvda_nvda_v1\<close> finds it and writes \<open>nvda_nvda_v1\<close>.
\<close>

theorem setAutoStart_then_willAutoStart_witness:
  "fst (setAutoStart HKEY_LOCAL_MACHINE False (config_world ''magnifierpane,nvda_nvda_v1'')) = Inr ()
   \<and> fst (getAutoStartConfiguration HKEY_LOCAL_MACHINE (config_world ''magnifierpane,nvda_nvda_v1''))
       = Inr [''magnifierpane'', ''nvda_nvda_v1'']
   \<and> APP_KEY_NAME \<in> set [''magnifierpane'', ''nvda_nvda_v1'']
   \<and> vals (the (registry
          (snd (setAutoStart HKEY_LOCAL_MACHINE False (config_world ''magnifierpane,nvda_nvda_v1'')))
          (HKEY_LOCAL_MACHINE, ROOT_KEY))) ''Configuration''
       = Some (REG_SZ ''magnifierpane'')
   \<and> count_list [''magnifierpane'', ''nvda_nvda_v1''] APP_KEY_NAME \<le> 1
   \<and> fst (willAutoStart HKEY_LOCAL_MACHINE
        (snd (setAutoStart HKEY_LOCAL_MACHINE False (config_world ''magnifierpane,nvda_nvda_v1''))))
       = Inr False
   \<and> fst (setAutoStart HKEY_LOCAL_MACHINE False (config_world ''nvda_nvda_v1,nvda_nvda_v1'')) = Inr ()
   \<and> fst (getAutoStartConfiguration HKEY_LOCAL_MACHINE (config_world ''nvda_nvda_v1,nvda_nvda_v1''))
       = Inr [''nvda_nvda_v1'', ''nvda_nvda_v1'']
   \<and> vals (the (registry
          (snd (setAutoStart HKEY_LOCAL_MACHINE False (config_world ''nvda_nvda_v1,nvda_nvda_v1'')))
          (HKEY_LOCAL_MACHINE, ROOT_KEY))) ''Configuration''
       = Some (REG_SZ ''nvda_nvda_v1'')"
proof -
  have r: "fst (setAutoStart HKEY_LOCAL_MACHINE False (config_world ''magnifierpane,nvda_nvda_v1'')) = Inr ()"
    by (simp add: eval_autostart)
  have c: "fst (getAutoStartConfiguration HKEY_LOCAL_MACHINE (config_world ''magnifierpane,nvda_nvda_v1''))
       = Inr [''magnifierpane'', ''nvda_nvda_v1'']"
    by (simp add: eval_autostart)
  have n: "count_list [''magnifierpane'', ''nvda_nvda_v1''] APP_KEY_NAME \<le> 1"
    by (simp add: APP_KEY_NAME_def)
  have j: "str_join (CHR '','') (remove1 APP_KEY_NAME [''magnifierpane'', ''nvda_nvda_v1''])
       = ''magnifierpane''"
    by (simp add: APP_KEY_NAME_def)
  have r2: "fst (setAutoStart HKEY_LOCAL_MACHINE False (config_world ''nvda_nvda_v1,nvda_nvda_v1'')) = Inr ()"
    by (simp add: eval_autostart)
  have c2: "fst (getAutoStartConfiguration HKEY_LOCAL_MACHINE (config_world ''nvda_nvda_v1,nvda_nvda_v1''))
       = Inr [''nvda_nvda_v1'', ''nvda_nvda_v1'']"
    by (simp add: eval_autostart)
  have j2: "str_join (CHR '','') (remove1 APP_KEY_NAME [''nvda_nvda_v1'', ''nvda_nvda_v1''])
       = ''nvda_nvda_v1''"
    by (simp add: APP_KEY_NAME_def)
  have m: "APP_KEY_NAME \<in> set [''magnifierpane'', ''nvda_nvda_v1'']"
    using setAutoStart_then_willAutoStart [OF r c] by simp
  have v: "vals (the (registry
          (snd (setAutoStart HKEY_LOCAL_MACHINE False (config_world ''magnifierpane,nvda_nvda_v1'')))
          (HKEY_LOCAL_MACHINE, ROOT_KEY))) ''Configuration''
       = Some (REG_SZ ''magnifierpane'')"
    using setAutoStart_then_willAutoStart [OF r c] j by auto
  have a: "fst (willAutoStart HKEY_LOCAL_MACHINE
        (snd (setAutoStart HKEY_LOCAL_MACHINE False (config_world ''magnifierpane,nvda_nvda_v1''))))
       = Inr False"
    using setAutoStart_then_willAutoStart [OF r c] n by simp
  have v2: "vals (the (registry
          (snd (setAutoStart HKEY_LOCAL_MACHINE False (config_world ''nvda_nvda_v1,nvda_nvda_v1'')))
          (HKEY_LOCAL_MACHINE, ROOT_KEY))) ''Configuration''
       = Some (REG_SZ ''nvda_nvda_v1'')"
    using setAutoStart_then_willAutoStart [OF r2 c2] j2 by auto
  show ?thesis
    by (intro conjI) (fact r c m v n a r2 c2 v2)+
qed

text \<open>
  C1 as stated fails where the identifier is listed twice: \<open>list.remove\<close> takes out the
  first occurrence only, so disabling returns and \<open>willAutoStart\<close> is still true.
\<close>

theorem setAutoStart_duplicate_counterexample:
  "fst (setAutoStart HKEY_LOCAL_MACHINE False (config_world ''nvda_nvda_v1,nvda_nvda_v1'')) = Inr ()
   \<and> fst (willAutoStart HKEY_LOCAL_MACHINE
        (snd (setAutoStart HKEY_LOCAL_MACHINE False (config_world ''nvda_nvda_v1,nvda_nvda_v1''))))
       = Inr True"
  by (simp add: eval_autostart)

text \<open>
  C2 fails on the code.  Where the wanted state already holds (the list read holds the
  identifier exactly when \<open>enable\<close> is true), no branch binds \<open>changed\<close>, and the test
  \<open>if changed\<close> raises \<open>UnboundLocalError\<close>; the registry is left as it was.
\<close>

theorem setAutoStart_unchanged_raises:
  assumes "fst (getAutoStartConfiguration hkey w) = Inr conf"
    and "(APP_KEY_NAME \<in> set conf) = enable"
  shows "fst (setAutoStart hkey enable w) = Inl UnboundLocalError
    \<and> registry (snd (setAutoStart hkey enable w)) = registry w"
proof -
  obtain w1 where g: "getAutoStartConfiguration hkey w = (Inr conf, w1)"
    using assms(1) by (cases "getAutoStartConfiguration hkey w") auto
  have u: "setAutoStart_update enable conf = (conf, None)"
    using assms(2) by (auto simp: setAutoStart_update_cases)
  have "registry w1 = registry w"
    using getAutoStartConfiguration_registry [of hkey w] g by simp
  then show ?thesis by (simp add: setAutoStart_def g u)
qed

theorem setAutoStart_unchanged_raises_witness:
  "fst (getAutoStartConfiguration HKEY_LOCAL_MACHINE (config_world ''nvda_nvda_v1'')) = Inr [''nvda_nvda_v1'']
   \<and> (APP_KEY_NAME \<in> set [''nvda_nvda_v1'']) = True
   \<and> fst (setAutoStart HKEY_LOCAL_MACHINE True (config_world ''nvda_nvda_v1'')) = Inl UnboundLocalError
   \<and> fst (getAutoStartConfiguration HKEY_LOCAL_MACHINE empty_world) = Inr []
   \<and> (APP_KEY_NAME \<in> set []) = False
   \<and> fst (setAutoStart HKEY_LOCAL_MACHINE False empty_world) = Inl UnboundLocalError"
proof -
  have c: "fst (getAutoStartConfiguration HKEY_LOCAL_MACHINE (config_world ''nvda_nvda_v1'')) = Inr [''nvda_nvda_v1'']"
    by (simp add: eval_autostart)
  have m: "(APP_KEY_NAME \<in> set [''nvda_nvda_v1'']) = True"
    by (simp add: APP_KEY_NAME_def)
  have c': "fst (getAutoStartConfiguration HKEY_LOCAL_MACHINE empty_world) = Inr []"
    by (simp add: eval_autostart)
  have m': "(APP_KEY_NAME \<in> set []) = False"
    by simp
  from setAutoStart_unchanged_raises [OF c m] setAutoStart_unchanged_raises [OF c' m'] c m c' m'
  show ?thesis by simp
qed

section \<open>Claims about \<open>isRegistered\<close> and the handling of registry errors\<close>

lemmas eval_registered =
  isRegistered_def registered_world_def empty_world_def returned_def eval_registry

lemma isRegistered_result:
  "fst (isRegistered w) =
     Inr (returned (OpenKey (registry w) HKEY_LOCAL_MACHINE APP_KEY_PATH {KEY_READ, KEY_WOW64_64KEY}))"
proof (cases "OpenKey (registry w) HKEY_LOCAL_MACHINE APP_KEY_PATH {KEY_READ, KEY_WOW64_64KEY}")
  case (Inl e)
  with OpenKey_Inl [OF Inl] show ?thesis
    by (simp add: isRegistered_def returned_def)
next
  case (Inr k)
  then show ?thesis by (simp add: isRegistered_def returned_def)
qed

lemma isRegistered_failed:
  assumes "\<not> returned (OpenKey (registry w) HKEY_LOCAL_MACHINE APP_KEY_PATH {KEY_READ, KEY_WOW64_64KEY})"
  shows "fst (isRegistered w) = Inr False \<and> length (logged (snd (isRegistered w))) = Suc (length (logged w))"
proof (cases "OpenKey (registry w) HKEY_LOCAL_MACHINE APP_KEY_PATH {KEY_READ, KEY_WOW64_64KEY}")
  case (Inl e)
  with OpenKey_Inl [OF Inl] show ?thesis
    by (simp add: isRegistered_def log_debug_def log_error_def)
next
  case (Inr k)
  with assms show ?thesis by (simp add: returned_def)
qed

lemma getAutoStartConfiguration_no_WindowsError:
  "\<not> raisedWindowsError (fst (getAutoStartConfiguration hkey w))"
  by (simp add: getAutoStartConfiguration_def raisedWindowsError_def isWindowsError_def
      split: sum.splits list.splits)

lemma getAutoStartConfiguration_OpenKey_failed:
  assumes "\<not> returned (OpenKey (registry w) hkey ROOT_KEY {KEY_READ, KEY_WOW64_64KEY})"
  shows "fst (getAutoStartConfiguration hkey w) = Inr []
    \<and> length (logged (snd (getAutoStartConfiguration hkey w))) = Suc (length (logged w))"
proof (cases "OpenKey (registry w) hkey ROOT_KEY {KEY_READ, KEY_WOW64_64KEY}")
  case (Inl e)
  with OpenKey_Inl [OF Inl] show ?thesis
    by (simp add: getAutoStartConfiguration_def log_debug_def log_error_def)
next
  case (Inr k)
  with assms show ?thesis by (simp add: returned_def)
qed

lemma getAutoStartConfiguration_QueryValueEx_failed:
  assumes "OpenKey (registry w) hkey ROOT_KEY {KEY_READ, KEY_WOW64_64KEY} = Inr k"
    and "\<not> returned (QueryValueEx (registry w) k ''Configuration'')"
  shows "fst (getAutoStartConfiguration hkey w) = Inr []
    \<and> length (logged (snd (getAutoStartConfiguration hkey w))) = Suc (length (logged w))"
proof (cases "QueryValueEx (registry w) k ''Configuration''")
  case (Inl e)
  with QueryValueEx_Inl [OF Inl] assms(1) show ?thesis
    by (simp add: getAutoStartConfiguration_def log_debug_def log_error_def)
next
  case (Inr v)
  with assms show ?thesis by (simp add: returned_def)
qed

lemma setAutoStart_OpenKey_failed:
  assumes "fst (getAutoStartConfiguration hkey w) = Inr conf"
    and "(APP_KEY_NAME \<in> set conf) = (\<not> enable)"
    and "OpenKey (registry w) hkey ROOT_KEY {KEY_READ, KEY_WRITE, KEY_WOW64_64KEY} = Inl e"
  shows "fst (setAutoStart hkey enable w) = Inl e"
proof -
  obtain w1 where g: "getAutoStartConfiguration hkey w = (Inr conf, w1)"
    using assms(1) by (cases "getAutoStartConfiguration hkey w") auto
  obtain conf' where u: "setAutoStart_update enable conf = (conf', Some True)"
    using assms(2) by (auto simp: setAutoStart_update_cases)
  have "registry w1 = registry w"
    using getAutoStartConfiguration_registry [of hkey w] g by simp
  then show ?thesis by (simp add: setAutoStart_def g u assms(3))
qed

text \<open>
  C3, as amended.  \<open>isRegistered\<close> and \<open>_getAutoStartConfiguration\<close> never raise a
  \<open>WindowsError\<close>: when a registry call of theirs fails, they add an entry to the log and
  return \<open>False\<close>, respectively the empty list.  \<open>setAutoStart\<close> catches nothing itself:
  when the list read is not yet in the wanted state and opening the key for writing
  fails, that error is what the caller gets.
\<close>

theorem registry_errors_caught_except_in_setAutoStart:
  "\<not> raisedWindowsError (fst (isRegistered w))
   \<and> \<not> raisedWindowsError (fst (getAutoStartConfiguration hkey w))
   \<and> (\<not> returned (OpenKey (registry w) HKEY_LOCAL_MACHINE APP_KEY_PATH {KEY_READ, KEY_WOW64_64KEY})
        \<longrightarrow> fst (isRegistered w) = Inr False
            \<and> length (logged (snd (isRegistered w))) = Suc (length (logged w)))
   \<and> (\<not> returned (OpenKey (registry w) hkey ROOT_KEY {KEY_READ, KEY_WOW64_64KEY})
        \<longrightarrow> fst (getAutoStartConfiguration hkey w) = Inr []
            \<and> length (logged (snd (getAutoStartConfiguration hkey w))) = Suc (length (logged w)))
   \<and> (\<forall>k. OpenKey (registry w) hkey ROOT_KEY {KEY_READ, KEY_WOW64_64KEY} = Inr k
        \<longrightarrow> \<not> returned (QueryValueEx (registry w) k ''Configuration'')
        \<longrightarrow> fst (getAutoStartConfiguration hkey w) = Inr []
            \<and> length (logged (snd (getAutoStartConfiguration hkey w))) = Suc (length (logged w)))
   \<and> (\<forall>conf e. fst (getAutoStartConfiguration hkey w) = Inr conf
        \<longrightarrow> (APP_KEY_NAME \<in> set conf) = (\<not> enable)
        \<longrightarrow> OpenKey (registry w) hkey ROOT_KEY {KEY_READ, KEY_WRITE, KEY_WOW64_64KEY} = Inl e
        \<longrightarrow> fst (setAutoStart hkey enable w) = Inl e \<and> isWindowsError e)"
proof -
  have c1: "\<not> raisedWindowsError (fst (isRegistered w))"
    by (simp add: isRegistered_result raisedWindowsError_def)
  have c2: "\<not> raisedWindowsError (fst (getAutoStartConfiguration hkey w))"
    by (rule getAutoStartConfiguration_no_WindowsError)
  have c3: "\<not> returned (OpenKey (registry w) HKEY_LOCAL_MACHINE APP_KEY_PATH {KEY_READ, KEY_WOW64_64KEY})
        \<longrightarrow> fst (isRegistered w) = Inr False
            \<and> length (logged (snd (isRegistered w))) = Suc (length (logged w))"
    by (rule impI) (rule isRegistered_failed)
  have c4: "\<not> returned (OpenKey (registry w) hkey ROOT_KEY {KEY_READ, KEY_WOW64_64KEY})
        \<longrightarrow> fst (getAutoStartConfiguration hkey w) = Inr []
            \<and> length (logged (snd (getAutoStartConfiguration hkey w))) = Suc (length (logged w))"
    by (rule impI) (rule getAutoStartConfiguration_OpenKey_failed)
  have c5: "\<forall>k. OpenKey (registry w) hkey ROOT_KEY {KEY_READ, KEY_WOW64_64KEY} = Inr k
        \<longrightarrow> \<not> returned (QueryValueEx (registry w) k ''Configuration'')
        \<longrightarrow> fst (getAutoStartConfiguration hkey w) = Inr []
            \<and> length (logged (snd (getAutoStartConfiguration hkey w))) = Suc (length (logged w))"
    by (intro allI impI) (rule getAutoStartConfiguration_QueryValueEx_failed)
  have c6: "\<forall>conf e. fst (getAutoStartConfiguration hkey w) = Inr conf
        \<longrightarrow> (APP_KEY_NAME \<in> set conf) = (\<not> enable)
        \<longrightarrow> OpenKey (registry w) hkey ROOT_KEY {KEY_READ, KEY_WRITE, KEY_WOW64_64KEY} = Inl e
        \<longrightarrow> fst (setAutoStart hkey enable w) = Inl e \<and> isWindowsError e"
  proof (intro allI impI conjI)
    fix conf e
    assume "fst (getAutoStartConfiguration hkey w) = Inr conf"
      and "(APP_KEY_NAME \<in> set conf) = (\<not> enable)"
      and o: "OpenKey (registry w) hkey ROOT_KEY {KEY_READ, KEY_WRITE, KEY_WOW64_64KEY} = Inl e"
    then show "fst (setAutoStart hkey enable w) = Inl e"
      by (rule setAutoStart_OpenKey_failed)
    from o show "isWindowsError e"
      by (rule OpenKey_Inl)
  qed
  show ?thesis
    by (intro conjI) (fact c1 c2 c3 c4 c5 c6)+
qed

text \<open>
  The theorem at work, on a registry without any key (both functions log and give up,
  \<open>setAutoStart\<close> raises) and on one whose key has no \<open>Configuration\<close> value.
\<close>

theorem registry_errors_caught_except_in_setAutoStart_witness:
  "\<not> returned (OpenKey (registry empty_world) HKEY_LOCAL_MACHINE APP_KEY_PATH {KEY_READ, KEY_WOW64_64KEY})
   \<and> fst (isRegistered empty_world) = Inr False
   \<and> length (logged (snd (isRegistered empty_world))) = Suc (length (logged empty_world))
   \<and> \<not> returned (OpenKey (registry empty_world) HKEY_CURRENT_USER ROOT_KEY {KEY_READ, KEY_WOW64_64KEY})
   \<and> fst (getAutoStartConfiguration HKEY_CURRENT_USER empty_world) = Inr []
   \<and> (APP_KEY_NAME \<in> set []) = (\<not> True)
   \<and> OpenKey (registry empty_world) HKEY_CURRENT_USER ROOT_KEY {KEY_READ, KEY_WRITE, KEY_WOW64_64KEY}
       = Inl FileNotFoundError
   \<and> fst (setAutoStart HKEY_CURRENT_USER True empty_world) = Inl FileNotFoundError
   \<and> OpenKey (registry unconfigured_world) HKEY_LOCAL_MACHINE ROOT_KEY {KEY_READ, KEY_WOW64_64KEY}
       = Inr \<lparr>hroot = HKEY_LOCAL_MACHINE, hpath = ROOT_KEY, haccess = {KEY_READ, KEY_WOW64_64KEY}\<rparr>
   \<and> \<not> returned (QueryValueEx (registry unconfigured_world)
          \<lparr>hroot = HKEY_LOCAL_MACHINE, hpath = ROOT_KEY, haccess = {KEY_READ, KEY_WOW64_64KEY}\<rparr>
          ''Configuration'')
   \<and> fst (getAutoStartConfiguration HKEY_LOCAL_MACHINE unconfigured_world) = Inr []
   \<and> length (logged (snd (getAutoStartConfiguration HKEY_LOCAL_MACHINE unconfigured_world)))
       = Suc (length (logged unconfigured_world))"
proof -
  have a: "\<not> returned (OpenKey (registry empty_world) HKEY_LOCAL_MACHINE APP_KEY_PATH {KEY_READ, KEY_WOW64_64KEY})"
    by (simp add: eval_registered)
  have b: "\<not> returned (OpenKey (registry empty_world) HKEY_CURRENT_USER ROOT_KEY {KEY_READ, KEY_WOW64_64KEY})"
    by (simp add: eval_registered)
  have c: "(APP_KEY_NAME \<in> set []) = (\<not> True)"
    by simp
  have d: "OpenKey (registry empty_world) HKEY_CURRENT_USER ROOT_KEY {KEY_READ, KEY_WRITE, KEY_WOW64_64KEY}
       = Inl FileNotFoundError"
    by (simp add: eval_registered)
  have e: "OpenKey (registry unconfigured_world) HKEY_LOCAL_MACHINE ROOT_KEY {KEY_READ, KEY_WOW64_64KEY}
       = Inr \<lparr>hroot = HKEY_LOCAL_MACHINE, hpath = ROOT_KEY, haccess = {KEY_READ, KEY_WOW64_64KEY}\<rparr>"
    by (simp add: unconfigured_world_def eval_registry)
  have f: "\<not> returned (QueryValueEx (registry unconfigured_world)
          \<lparr>hroot = HKEY_LOCAL_MACHINE, hpath = ROOT_KEY, haccess = {KEY_READ, KEY_WOW64_64KEY}\<rparr>
          ''Configuration'')"
    by (simp add: unconfigured_world_def returned_def eval_registry)
  from registry_errors_caught_except_in_setAutoStart [of empty_world HKEY_CURRENT_USER True]
    registry_errors_caught_except_in_setAutoStart [of unconfigured_world HKEY_LOCAL_MACHINE True]
    a b c d e f
  show ?thesis by simp
qed

text \<open>
  C3 as stated fails for \<open>setAutoStart\<close>: on a registry without the Accessibility key,
  enabling raises \<open>FileNotFoundError\<close> (a \<open>WindowsError\<close>) to the caller, as the docstring
  of the function says it may.
\<close>

theorem setAutoStart_raises_counterexample:
  "fst (setAutoStart HKEY_LOCAL_MACHINE True empty_world) = Inl FileNotFoundError
   \<and> raisedWindowsError (fst (setAutoStart HKEY_LOCAL_MACHINE True empty_world))"
  by (simp add: eval_autostart raisedWindowsError_def)

text \<open>
  C4.  \<open>isRegistered\<close> never raises; it returns \<open>True\<close> exactly when opening the key
  \<open>Software\Microsoft\Windows NT\CurrentVersion\Accessibility\ATs\nvda_nvda_v1\<close> of
  \<open>HKEY_LOCAL_MACHINE\<close> for reading succeeds, and \<open>False\<close> when the key is missing or
  opening it fails with any other \<open>WindowsError\<close>.
\<close>

theorem isRegistered_iff_key_opens:
  "APP_KEY_PATH = ''Software'' @ [CHR 0x5C] @ ''Microsoft'' @ [CHR 0x5C] @ ''Windows NT'' @ [CHR 0x5C]
       @ ''CurrentVersion'' @ [CHR 0x5C] @ ''Accessibility'' @ [CHR 0x5C] @ ''ATs'' @ [CHR 0x5C]
       @ ''nvda_nvda_v1''
   \<and> fst (isRegistered w) =
       Inr (returned (OpenKey (registry w) HKEY_LOCAL_MACHINE APP_KEY_PATH {KEY_READ, KEY_WOW64_64KEY}))
   \<and> (registry w (HKEY_LOCAL_MACHINE, APP_KEY_PATH) = None \<longrightarrow> fst (isRegistered w) = Inr False)
   \<and> (\<forall>e. OpenKey (registry w) HKEY_LOCAL_MACHINE APP_KEY_PATH {KEY_READ, KEY_WOW64_64KEY} = Inl e
         \<longrightarrow> isWindowsError e \<and> fst (isRegistered w) = Inr False)"
proof -
  have c1: "APP_KEY_PATH = ''Software'' @ [CHR 0x5C] @ ''Microsoft'' @ [CHR 0x5C] @ ''Windows NT'' @ [CHR 0x5C]
       @ ''CurrentVersion'' @ [CHR 0x5C] @ ''Accessibility'' @ [CHR 0x5C] @ ''ATs'' @ [CHR 0x5C]
       @ ''nvda_nvda_v1''"
    by (simp add: APP_KEY_PATH_def ROOT_KEY_def APP_KEY_NAME_def backslash_def)
  have c3: "registry w (HKEY_LOCAL_MACHINE, APP_KEY_PATH) = None \<longrightarrow> fst (isRegistered w) = Inr False"
    by (simp add: isRegistered_result returned_def OpenKey_def)
  have c4: "\<forall>e. OpenKey (registry w) HKEY_LOCAL_MACHINE APP_KEY_PATH {KEY_READ, KEY_WOW64_64KEY} = Inl e
         \<longrightarrow> isWindowsError e \<and> fst (isRegistered w) = Inr False"
  proof (intro allI impI conjI)
    fix e
    assume o: "OpenKey (registry w) HKEY_LOCAL_MACHINE APP_KEY_PATH {KEY_READ, KEY_WOW64_64KEY} = Inl e"
    then show "isWindowsError e" by (rule OpenKey_Inl)
    from o show "fst (isRegistered w) = Inr False"
      by (simp add: isRegistered_result returned_def)
  qed
  show ?thesis
    by (intro conjI) (fact c1 isRegistered_result c3 c4)+
qed

theorem isRegistered_iff_key_opens_witness:
  "registry empty_world (HKEY_LOCAL_MACHINE, APP_KEY_PATH) = None
   \<and> OpenKey (registry empty_world) HKEY_LOCAL_MACHINE APP_KEY_PATH {KEY_READ, KEY_WOW64_64KEY}
       = Inl FileNotFoundError
   \<and> fst (isRegistered empty_world) = Inr False
   \<and> fst (isRegistered (registered_world no_keys_down)) = Inr True"
proof -
  have a: "registry empty_world (HKEY_LOCAL_MACHINE, APP_KEY_PATH) = None"
    by (simp add: eval_registered)
  have b: "OpenKey (registry empty_world) HKEY_LOCAL_MACHINE APP_KEY_PATH {KEY_READ, KEY_WOW64_64KEY}
       = Inl FileNotFoundError"
    by (simp add: eval_registered)
  have c: "returned (OpenKey (registry (registered_world no_keys_down)) HKEY_LOCAL_MACHINE APP_KEY_PATH
       {KEY_READ, KEY_WOW64_64KEY})"
    by (simp add: eval_registered)
  from isRegistered_iff_key_opens [of empty_world]
    isRegistered_iff_key_opens [of "registered_world no_keys_down"] a b c
  show ?thesis by (simp add: returned_def)
qed

section \<open>Claims about the stored list\<close>

text \<open>
  C6, as amended.  Where the \<open>Configuration\<close> value under the Accessibility root key is
  the empty string, \<open>_getAutoStartConfiguration\<close> returns the empty list and
  \<open>willAutoStart\<close> returns \<open>False\<close>.  Where the process may read the key and the value is
  a non-empty string whose first comma-separated element is non-empty, the function
  returns the list of the comma-separated elements.
\<close>

theorem getAutoStartConfiguration_of_value:
  assumes "registry w (hkey, ROOT_KEY) = Some key"
    and "vals key ''Configuration'' = Some (REG_SZ s)"
  shows "(s = [] \<longrightarrow> fst (getAutoStartConfiguration hkey w) = Inr []
                  \<and> fst (willAutoStart hkey w) = Inr False)
    \<and> (KEY_READ \<in> granted key \<and> s \<noteq> [] \<and> hd (str_split (CHR '','') s) \<noteq> []
         \<longrightarrow> fst (getAutoStartConfiguration hkey w) = Inr (str_split (CHR '','') s))"
proof (cases "KEY_READ \<in> granted key")
  case True
  have o: "OpenKey (registry w) hkey ROOT_KEY {KEY_READ, KEY_WOW64_64KEY}
             = Inr \<lparr>hroot = hkey, hpath = ROOT_KEY, haccess = {KEY_READ, KEY_WOW64_64KEY}\<rparr>"
    using True by (simp add: OpenKey_def assms(1))
  have q: "QueryValueEx (registry w)
             \<lparr>hroot = hkey, hpath = ROOT_KEY, haccess = {KEY_READ, KEY_WOW64_64KEY}\<rparr>
             ''Configuration'' = Inr (REG_SZ s)"
    by (simp add: QueryValueEx_def assms)
  have r: "getAutoStartConfiguration hkey w = (Inr (drop_leading_empty (str_split (CHR '','') s)), w)"
    by (rule getAutoStartConfiguration_read [OF o q])
  have "hd (str_split (CHR '','') s) \<noteq> []
          \<longrightarrow> drop_leading_empty (str_split (CHR '','') s) = str_split (CHR '','') s"
    by (simp add: drop_leading_empty_def split: list.splits)
  then show ?thesis
    by (auto simp: r willAutoStart_def drop_leading_empty_def)
next
  case False
  then have "OpenKey (registry w) hkey ROOT_KEY {KEY_READ, KEY_WOW64_64KEY} = Inl PermissionError"
    by (simp add: OpenKey_def assms(1))
  then have "fst (getAutoStartConfiguration hkey w) = Inr []"
    by (simp add: getAutoStartConfiguration_def isWindowsError_def)
  then show ?thesis
    using False by (cases "getAutoStartConfiguration hkey w") (auto simp: willAutoStart_def)
qed

text \<open>The theorem at work on the empty string and on \<open>osk,nvda_nvda_v1\<close>.\<close>

theorem getAutoStartConfiguration_of_value_witness:
  "registry (config_world '''') (HKEY_LOCAL_MACHINE, ROOT_KEY)
       = Some (open_key [''Configuration'' \<mapsto> REG_SZ ''''])
   \<and> vals (open_key [''Configuration'' \<mapsto> REG_SZ '''']) ''Configuration'' = Some (REG_SZ '''')
   \<and> fst (getAutoStartConfiguration HKEY_LOCAL_MACHINE (config_world '''')) = Inr []
   \<and> fst (willAutoStart HKEY_LOCAL_MACHINE (config_world '''')) = Inr False
   \<and> registry (config_world ''osk,nvda_nvda_v1'') (HKEY_LOCAL_MACHINE, ROOT_KEY)
       = Some (open_key [''Configuration'' \<mapsto> REG_SZ ''osk,nvda_nvda_v1''])
   \<and> vals (open_key [''Configuration'' \<mapsto> REG_SZ ''osk,nvda_nvda_v1'']) ''Configuration''
       = Some (REG_SZ ''osk,nvda_nvda_v1'')
   \<and> KEY_READ \<in> granted (open_key [''Configuration'' \<mapsto> REG_SZ ''osk,nvda_nvda_v1''])
   \<and> hd (str_split (CHR '','') ''osk,nvda_nvda_v1'') \<noteq> []
   \<and> fst (getAutoStartConfiguration HKEY_LOCAL_MACHINE (config_world ''osk,nvda_nvda_v1''))
       = Inr [''osk'', ''nvda_nvda_v1'']"
proof -
  have a: "registry (config_world '''') (HKEY_LOCAL_MACHINE, ROOT_KEY)
       = Some (open_key [''Configuration'' \<mapsto> REG_SZ ''''])"
    by (simp add: config_world_def world_of_def)
  have b: "vals (open_key [''Configuration'' \<mapsto> REG_SZ '''']) ''Configuration'' = Some (REG_SZ '''')"
    by (simp add: open_key_def)
  have c: "registry (config_world ''osk,nvda_nvda_v1'') (HKEY_LOCAL_MACHINE, ROOT_KEY)
       = Some (open_key [''Configuration'' \<mapsto> REG_SZ ''osk,nvda_nvda_v1''])"
    by (simp add: config_world_def world_of_def)
  have d: "vals (open_key [''Configuration'' \<mapsto> REG_SZ ''osk,nvda_nvda_v1'']) ''Configuration''
       = Some (REG_SZ ''osk,nvda_nvda_v1'')"
    by (simp add: open_key_def)
  have e: "KEY_READ \<in> granted (open_key [''Configuration'' \<mapsto> REG_SZ ''osk,nvda_nvda_v1''])"
    by (simp add: open_key_def)
  have f: "str_split (CHR '','') ''osk,nvda_nvda_v1'' = [''osk'', ''nvda_nvda_v1'']"
    by simp
  from getAutoStartConfiguration_of_value [OF a b] getAutoStartConfiguration_of_value [OF c d]
    a b c d e f
  show ?thesis by simp
qed

text \<open>
  C6 as stated fails where the process may not read the key: the value is
  \<open>osk,nvda_nvda_v1\<close>, with the elements \<open>osk\<close> and \<open>nvda_nvda_v1\<close>, but opening the key
  fails, which the function logs, and it returns the empty list.
\<close>

theorem getAutoStartConfiguration_unreadable_counterexample:
  "vals (the (registry (locked_config_world ''osk,nvda_nvda_v1'') (HKEY_LOCAL_MACHINE, ROOT_KEY)))
       ''Configuration'' = Some (REG_SZ ''osk,nvda_nvda_v1'')
   \<and> str_split (CHR '','') ''osk,nvda_nvda_v1'' = [''osk'', ''nvda_nvda_v1'']
   \<and> OpenKey (registry (locked_config_world ''osk,nvda_nvda_v1'')) HKEY_LOCAL_MACHINE ROOT_KEY
         {KEY_READ, KEY_WOW64_64KEY} = Inl PermissionError
   \<and> fst (getAutoStartConfiguration HKEY_LOCAL_MACHINE (locked_config_world ''osk,nvda_nvda_v1''))
       = Inr []"
  by (simp add: locked_config_world_def getAutoStartConfiguration_def eval_registry)

section \<open>Claims about \<open>notify\<close>\<close>

lemma isRegistered_frame:
  "registry (snd (isRegistered w)) = registry w
   \<and> sentInputs (snd (isRegistered w)) = sentInputs w
   \<and> asyncKeyState (snd (isRegistered w)) = asyncKeyState w"
  by (simp add: isRegistered_def log_debug_def log_error_def split: sum.splits)

lemma isRegistered_True:
  assumes "fst (isRegistered w) = Inr True"
  shows "isRegistered w = (Inr True, w)"
proof (cases "OpenKey (registry w) HKEY_LOCAL_MACHINE APP_KEY_PATH {KEY_READ, KEY_WOW64_64KEY}")
  case (Inl e)
  with OpenKey_Inl [OF Inl] assms show ?thesis
    by (auto simp: isRegistered_def split: if_splits)
next
  case (Inr k)
  then show ?thesis by (simp add: isRegistered_def)
qed

lemma notify_not_registered:
  assumes "fst (isRegistered w) = Inr False"
  shows "fst (notify signal w) = Inr ()
    \<and> registry (snd (notify signal w)) = registry w
    \<and> sentInputs (snd (notify signal w)) = sentInputs w
    \<and> asyncKeyState (snd (notify signal w)) = asyncKeyState w"
proof -
  obtain w1 where r: "isRegistered w = (Inr False, w1)"
    using assms by (cases "isRegistered w") auto
  then have "notify signal w = (Inr (), snd (isRegistered w))"
    by (simp add: notify_def)
  then show ?thesis by (simp add: isRegistered_frame)
qed

text \<open>
  C10.  When \<open>isRegistered\<close> returns \<open>False\<close>, \<open>notify\<close> returns at once: the registry, the
  input sent and the keyboard are as before.  So a call of \<open>notify\<close> that changed the
  registry or sent input was one where \<open>isRegistered\<close> returned \<open>True\<close>.
\<close>

theorem notify_nothing_unless_registered:
  "(fst (isRegistered w) = Inr False
      \<longrightarrow> fst (notify signal w) = Inr ()
          \<and> registry (snd (notify signal w)) = registry w
          \<and> sentInputs (snd (notify signal w)) = sentInputs w
          \<and> asyncKeyState (snd (notify signal w)) = asyncKeyState w)
   \<and> (registry (snd (notify signal w)) \<noteq> registry w \<or> sentInputs (snd (notify signal w)) \<noteq> sentInputs w
      \<longrightarrow> fst (isRegistered w) = Inr True)"
proof (cases "fst (isRegistered w) = Inr False")
  case True
  from notify_not_registered [OF True] True show ?thesis by simp
next
  case False
  then have "fst (isRegistered w) = Inr True"
    by (simp add: isRegistered_result)
  with False show ?thesis by simp
qed

text \<open>
  The theorem at work: without the registration nothing happens, and with it the
  registry changes.
\<close>

theorem notify_nothing_unless_registered_witness:
  "fst (isRegistered empty_world) = Inr False
   \<and> fst (notify 1 empty_world) = Inr ()
   \<and> registry (snd (notify 1 empty_world)) = registry empty_world
   \<and> sentInputs (snd (notify 1 empty_world)) = sentInputs empty_world
   \<and> sentInputs (snd (notify 1 (registered_world no_keys_down))) \<noteq> sentInputs (registered_world no_keys_down)
   \<and> fst (isRegistered (registered_world no_keys_down)) = Inr True"
proof -
  have a: "fst (isRegistered empty_world) = Inr False"
    by (simp add: eval_registered)
  have b: "isRegistered (registered_world no_keys_down) = (Inr True, registered_world no_keys_down)"
    by (simp add: eval_registered)
  have c: "sentInputs (snd (notify 1 (registered_world no_keys_down)))
             \<noteq> sentInputs (registered_world no_keys_down)"
    unfolding notify_def b
    by (simp add: registered_world_def eval_registry SendInput_def Let_def)
  from notify_nothing_unless_registered [of empty_world 1]
    notify_nothing_unless_registered [of "registered_world no_keys_down" 1] a c
  show ?thesis by simp
qed

section \<open>The key chord of \<open>notify\<close>\<close>

lemma foldl_snoc_map: "foldl (\<lambda>acc k. acc @ [f k]) init ks = init @ map f ks"
  by (induction ks arbitrary: init) auto

lemma foldl_snoc_filter:
  "foldl (\<lambda>acc k. if P k then acc @ [f k] else acc) init ks = init @ map f (filter P ks)"
  by (induction ks arbitrary: init) auto

lemma notify_keys_eq:
  "notify_keys w = map (\<lambda>vk. (vk, False)) (filter (isDown w) [VK_SHIFT, VK_CONTROL, VK_MENU])
      @ [(0x5B, True), (0x55, True)]"
  unfolding notify_keys_def foldl_snoc_filter
  by (simp add: isDown_def down_in_def getAsyncKeyState_def)

lemma notify_inputs_eq:
  "notify_inputs ks = map release_unwanted ks @ map release_desired (rev ks)"
  by (simp add: notify_inputs_def foldl_snoc_map)

text \<open>The inputs that \<open>notify\<close> builds, as the sequence of key events.\<close>

lemma notify_inputs_chord:
  "notify_inputs (notify_keys w) =
     map key_up (filter (isDown w) [VK_SHIFT, VK_CONTROL, VK_MENU])
     @ [key_down 0x5B, key_down 0x55, key_up 0x55, key_up 0x5B]
     @ map key_down (filter (isDown w) [VK_MENU, VK_CONTROL, VK_SHIFT])"
  by (simp add: notify_inputs_eq notify_keys_eq release_unwanted_def release_desired_def
      key_up_def key_down_def Input_new_def rev_map rev_filter comp_def)

lemma bit_set_gen: "((x::int) OR 2 ^ n) AND 2 ^ n \<noteq> 0"
  by (simp add: and_exp_eq_0_iff_not_bit bit_simps)

lemma bit_clear_gen: "((x::int) AND NOT (2 ^ n)) AND 2 ^ n = 0"
  by (simp add: and_exp_eq_0_iff_not_bit bit_simps)

lemma bit15_set: "((x::int) OR 32768) AND 32768 \<noteq> 0"
  using bit_set_gen [of x 15] by simp

lemma bit15_clear: "((x::int) AND NOT 32768) AND 32768 = 0"
  using bit_clear_gen [of x 15] by simp

text \<open>What the injected events do to a key's being down.\<close>

lemma inject_key_up: "down_in (inject (key_up k) st) vk = (down_in st vk \<and> vk \<noteq> k)"
  using bit15_clear [of "st k"]
  by (simp add: inject_def key_up_def down_in_def KEYEVENTF_KEYUP_def)

lemma inject_key_down: "down_in (inject (key_down k) st) vk = (down_in st vk \<or> vk = k)"
  by (simp add: inject_def key_down_def down_in_def bit15_set)

lemma fold_key_up: "down_in (fold inject (map key_up ks) st) vk = (down_in st vk \<and> vk \<notin> set ks)"
  by (induction ks arbitrary: st) (auto simp: inject_key_up)

lemma fold_key_down: "down_in (fold inject (map key_down ks) st) vk = (down_in st vk \<or> vk \<in> set ks)"
  by (induction ks arbitrary: st) (auto simp: inject_key_down)

lemma chord_keyboard:
  "down_in (fold inject (notify_inputs (notify_keys w)) (asyncKeyState w)) vk
     = (isDown w vk \<and> vk \<noteq> 0x5B \<and> vk \<noteq> 0x55)"
proof -
  have d: "down_in (asyncKeyState w) = isDown w"
    by (simp add: isDown_def fun_eq_iff)
  show ?thesis
    unfolding notify_inputs_chord
    by (auto simp: fold_key_up fold_key_down inject_key_up inject_key_down d
        VK_SHIFT_def VK_CONTROL_def VK_MENU_def)
qed

text \<open>A registered call that returned has sent the inputs it built, and those only.\<close>

lemma notify_registered:
  assumes "fst (isRegistered w) = Inr True" and "fst (notify signal w) = Inr ()"
  shows "sentInputs (snd (notify signal w)) = sentInputs w @ [notify_inputs (notify_keys w)]
    \<and> asyncKeyState (snd (notify signal w))
        = fold inject (notify_inputs (notify_keys w)) (asyncKeyState w)"
proof -
  have r: "isRegistered w = (Inr True, w)"
    using assms(1) by (rule isRegistered_True)
  from assms(2) obtain reg2 rkey where
    c: "CreateKey (registry w) (mayCreate w) HKEY_CURRENT_USER ACCESSIBILITY_TEMP = Inr (reg2, rkey)"
    by (cases "CreateKey (registry w) (mayCreate w) HKEY_CURRENT_USER ACCESSIBILITY_TEMP")
       (auto simp: notify_def r)
  from assms(2) obtain reg3 where
    s: "SetValueEx reg2 rkey APP_KEY_NAME (REG_DWORD signal) = Inr reg3"
    by (cases "SetValueEx reg2 rkey APP_KEY_NAME (REG_DWORD signal)")
       (auto simp: notify_def r c)
  have k: "notify_keys (w\<lparr>registry := reg3\<rparr>) = notify_keys w"
    by (simp add: notify_keys_def getAsyncKeyState_def)
  have "snd (notify signal w) = SendInput (notify_inputs (notify_keys w)) (w\<lparr>registry := reg3\<rparr>)"
    by (simp add: notify_def r c s k Let_def)
  then show ?thesis by (simp add: SendInput_def)
qed

text \<open>Whatever way \<open>notify\<close> ends, it has sent nothing or the inputs it built.\<close>

lemma notify_sent_cases:
  "(sentInputs (snd (notify signal w)) = sentInputs w
      \<and> asyncKeyState (snd (notify signal w)) = asyncKeyState w)
   \<or> (sentInputs (snd (notify signal w)) = sentInputs w @ [notify_inputs (notify_keys w)]
      \<and> asyncKeyState (snd (notify signal w))
          = fold inject (notify_inputs (notify_keys w)) (asyncKeyState w))"
proof (cases "fst (isRegistered w) = Inr False")
  case True
  from notify_not_registered [OF True] show ?thesis by simp
next
  case False
  then have t: "fst (isRegistered w) = Inr True"
    by (simp add: isRegistered_result)
  then have r: "isRegistered w = (Inr True, w)"
    by (rule isRegistered_True)
  show ?thesis
  proof (cases "fst (notify signal w) = Inr ()")
    case True
    from notify_registered [OF t True] show ?thesis by simp
  next
    case failed: False
    show ?thesis
    proof (cases "CreateKey (registry w) (mayCreate w) HKEY_CURRENT_USER ACCESSIBILITY_TEMP")
      case (Inl e)
      then show ?thesis by (simp add: notify_def r)
    next
      case (Inr p)
      obtain reg2 rkey where p: "p = (reg2, rkey)" by (cases p)
      show ?thesis
      proof (cases "SetValueEx reg2 rkey APP_KEY_NAME (REG_DWORD signal)")
        case (Inl e)
        then show ?thesis by (simp add: notify_def r Inr p)
      next
        case set: (Inr reg3)
        with failed show ?thesis by (simp add: notify_def r Inr p Let_def)
      qed
    qed
  qed
qed

text \<open>
  C5.  Whichever of shift, control and alt are reported as held down, the input sequence
  that \<open>notify\<close> builds, and sends if it sends anything, is: a key-up for each held
  modifier, in the order shift, control, alt; the key-downs of leftWindows (0x5B) and U
  (0x55); the key-ups of U and leftWindows; a key-down for each held modifier, in the
  order alt, control, shift.  The claim speaks of the states in which the keys held are
  modifiers, so the two keys of the chord are up before it: then every key is down after
  the sequence exactly if it was down before, after the sequence as such and after the
  call of \<open>notify\<close>.
\<close>

theorem notify_chord:
  "notify_inputs (notify_keys w) =
      map key_up (filter (isDown w) [VK_SHIFT, VK_CONTROL, VK_MENU])
      @ [key_down 0x5B, key_down 0x55, key_up 0x55, key_up 0x5B]
      @ map key_down (filter (isDown w) [VK_MENU, VK_CONTROL, VK_SHIFT])
   \<and> (sentInputs (snd (notify signal w)) = sentInputs w
       \<or> sentInputs (snd (notify signal w)) = sentInputs w @ [notify_inputs (notify_keys w)])
   \<and> (fst (isRegistered w) = Inr True \<and> fst (notify signal w) = Inr ()
       \<longrightarrow> sentInputs (snd (notify signal w)) = sentInputs w @ [notify_inputs (notify_keys w)])
   \<and> (\<not> isDown w 0x5B \<and> \<not> isDown w 0x55
       \<longrightarrow> down_in (fold inject (notify_inputs (notify_keys w)) (asyncKeyState w)) vk = isDown w vk
           \<and> isDown (snd (notify signal w)) vk = isDown w vk)"
proof -
  have c1: "notify_inputs (notify_keys w) =
      map key_up (filter (isDown w) [VK_SHIFT, VK_CONTROL, VK_MENU])
      @ [key_down 0x5B, key_down 0x55, key_up 0x55, key_up 0x5B]
      @ map key_down (filter (isDown w) [VK_MENU, VK_CONTROL, VK_SHIFT])"
    by (rule notify_inputs_chord)
  have c2: "sentInputs (snd (notify signal w)) = sentInputs w
       \<or> sentInputs (snd (notify signal w)) = sentInputs w @ [notify_inputs (notify_keys w)]"
    using notify_sent_cases [of signal w] by blast
  have c3: "fst (isRegistered w) = Inr True \<and> fst (notify signal w) = Inr ()
       \<longrightarrow> sentInputs (snd (notify signal w)) = sentInputs w @ [notify_inputs (notify_keys w)]"
    using notify_registered [of w signal] by blast
  have c4: "\<not> isDown w 0x5B \<and> \<not> isDown w 0x55
       \<longrightarrow> down_in (fold inject (notify_inputs (notify_keys w)) (asyncKeyState w)) vk = isDown w vk
           \<and> isDown (snd (notify signal w)) vk = isDown w vk"
  proof
    assume up: "\<not> isDown w 0x5B \<and> \<not> isDown w 0x55"
    have seq: "down_in (fold inject (notify_inputs (notify_keys w)) (asyncKeyState w)) vk = isDown w vk"
      using chord_keyboard [of w vk] up by auto
    have "isDown (snd (notify signal w)) vk = isDown w vk"
      using notify_sent_cases [of signal w] seq
      by (auto simp: isDown_def)
    with seq show "down_in (fold inject (notify_inputs (notify_keys w)) (asyncKeyState w)) vk = isDown w vk
           \<and> isDown (snd (notify signal w)) vk = isDown w vk"
      by simp
  qed
  show ?thesis
    by (intro conjI) (fact c1 c2 c3 c4)+
qed

lemma registered_world_registered: "fst (isRegistered (registered_world kb)) = Inr True"
  by (simp add: eval_registered)

lemma registered_world_notify: "fst (notify signal (registered_world kb)) = Inr ()"
proof -
  have r: "isRegistered (registered_world kb) = (Inr True, registered_world kb)"
    using registered_world_registered by (rule isRegistered_True)
  show ?thesis
    unfolding notify_def r
    by (simp add: registered_world_def eval_registry Let_def)
qed

text \<open>
  The theorem at work with shift and alt down and the keys of the chord up: the two are
  released, the chord is typed, and they are pressed again, alt first; shift is down
  afterwards and control is up, as before.
\<close>

theorem notify_chord_witness:
  "fst (isRegistered (registered_world shift_and_alt_down)) = Inr True
   \<and> fst (notify 1 (registered_world shift_and_alt_down)) = Inr ()
   \<and> \<not> isDown (registered_world shift_and_alt_down) 0x5B
   \<and> \<not> isDown (registered_world shift_and_alt_down) 0x55
   \<and> sentInputs (snd (notify 1 (registered_world shift_and_alt_down)))
       = [[key_up VK_SHIFT, key_up VK_MENU, key_down 0x5B, key_down 0x55, key_up 0x55, key_up 0x5B,
           key_down VK_MENU, key_down VK_SHIFT]]
   \<and> isDown (registered_world shift_and_alt_down) VK_SHIFT
   \<and> isDown (snd (notify 1 (registered_world shift_and_alt_down))) VK_SHIFT
   \<and> \<not> isDown (registered_world shift_and_alt_down) VK_CONTROL
   \<and> \<not> isDown (snd (notify 1 (registered_world shift_and_alt_down))) VK_CONTROL"
proof -
  let ?w = "registered_world shift_and_alt_down"
  have a: "fst (isRegistered ?w) = Inr True"
    by (rule registered_world_registered)
  have b: "fst (notify 1 ?w) = Inr ()"
    by (rule registered_world_notify)
  have d: "isDown ?w VK_SHIFT" "\<not> isDown ?w VK_CONTROL" "isDown ?w VK_MENU"
    "\<not> isDown ?w 0x5B" "\<not> isDown ?w 0x55"
    by (simp_all add: isDown_def down_in_def registered_world_def world_of_def
        shift_and_alt_down_def VK_SHIFT_def VK_CONTROL_def VK_MENU_def)
  have s: "sentInputs ?w = []"
    by (simp add: registered_world_def world_of_def)
  from notify_chord [of ?w 1 VK_SHIFT] notify_chord [of ?w 1 VK_CONTROL] a b d s
  show ?thesis by simp
qed

section \<open>Claims about the email and calendar module\<close>

text \<open>
  C7.  \<open>_generateTimeRangeText\<close> returns \<open>startText to endText\<close>.  The end text has the
  long date of the end time before its time exactly when the end date differs from the
  start date; the start text has the long date of the start time before its time exactly
  when \<open>_lastStartDate\<close> is unset, or differs from the start date, or the end date differs
  from the start date.  Afterwards \<open>_lastStartDate\<close> is the start date.
\<close>

theorem generateTimeRangeText_result:
  "fst (generateTimeRangeText GetTimeFormat GetDateFormat lastStartDate startTime endTime) =
     (if lastStartDate = None \<or> lastStartDate \<noteq> Some (date startTime)
           \<or> date endTime \<noteq> date startTime
      then GetDateFormat startTime @ '' '' @ GetTimeFormat startTime
      else GetTimeFormat startTime)
     @ '' to '' @
     (if date endTime \<noteq> date startTime
      then GetDateFormat endTime @ '' '' @ GetTimeFormat endTime
      else GetTimeFormat endTime)
   \<and> snd (generateTimeRangeText GetTimeFormat GetDateFormat lastStartDate startTime endTime)
       = Some (date startTime)"
  by (auto simp: generateTimeRangeText_def Let_def)

text \<open>
  The theorem at work: a slot on the day announced last, the same slot announced first,
  and a slot that ends on the next day.
\<close>

theorem generateTimeRangeText_result_witness:
  "fst (generateTimeRangeText clock weekday (Some (date (at_time 6 9 0))) (at_time 6 9 0) (at_time 6 13 30))
     = ''am to pm''
   \<and> fst (generateTimeRangeText clock weekday None (at_time 6 9 0) (at_time 6 13 30))
     = ''Monday am to pm''
   \<and> fst (generateTimeRangeText clock weekday (Some (date (at_time 6 9 0))) (at_time 6 23 0) (at_time 7 1 0))
     = ''Monday pm to Tuesday am''
   \<and> snd (generateTimeRangeText clock weekday None (at_time 6 9 0) (at_time 6 13 30))
     = Some \<lparr>year = 2024, month = 5, day = 6\<rparr>"
  using generateTimeRangeText_result [of clock weekday "Some (date (at_time 6 9 0))" "at_time 6 9 0" "at_time 6 13 30"]
    generateTimeRangeText_result [of clock weekday None "at_time 6 9 0" "at_time 6 13 30"]
    generateTimeRangeText_result [of clock weekday "Some (date (at_time 6 9 0))" "at_time 6 23 0" "at_time 7 1 0"]
  by (simp add: at_time_def clock_def weekday_def)

text \<open>
  C9.  \<open>event_NVDAObject_init\<close> changes four attributes and nothing else.  The parent
  becomes the window's grandparent on an editable text of class \<open>RichEdit20W\<close> with control
  ID 8224 and on a pane of class \<open>Internet Explorer_Server\<close> that is not MSHTML; the
  description becomes \<open>None\<close> on a menu bar or menu item; the focus-event flag is set on a
  tree view, tree view item, list or list item; the role becomes list item on an object
  of role unknown that is (\<open>SUPERGRID\<close>, 4704) or (\<open>rctrl_renwnd32\<close>, 109).
\<close>

theorem event_NVDAObject_init_patches:
  "event_NVDAObject_init Window_get_parent obj =
     obj\<lparr>parent :=
           (if (role obj = ROLE_EDITABLETEXT \<and> windowClassName obj = ''RichEdit20W''
                  \<and> windowControlID obj = 8224)
               \<or> (role obj = ROLE_PANE \<and> windowClassName obj = ''Internet Explorer_Server''
                  \<and> \<not> isMSHTML obj)
            then Window_get_parent (Window_get_parent (ref obj))
            else parent obj),
         description :=
           (if role obj = ROLE_MENUBAR \<or> role obj = ROLE_MENUITEM then None
            else description obj),
         shouldAllowIAccessibleFocusEvent :=
           (if role obj = ROLE_TREEVIEW \<or> role obj = ROLE_TREEVIEWITEM
               \<or> role obj = ROLE_LIST \<or> role obj = ROLE_LISTITEM
            then True
            else shouldAllowIAccessibleFocusEvent obj),
         role :=
           (if role obj = ROLE_UNKNOWN
               \<and> ((windowClassName obj = ''SUPERGRID'' \<and> windowControlID obj = 4704)
                  \<or> (windowClassName obj = ''rctrl_renwnd32'' \<and> windowControlID obj = 109))
            then ROLE_LISTITEM
            else role obj)\<rparr>"
  by (cases obj) (simp add: event_NVDAObject_init_def Let_def)

text \<open>
  The theorem at work on the plain text message control, a menu item, a tree view, the
  message list and a button.
\<close>

theorem event_NVDAObject_init_patches_witness:
  "event_NVDAObject_init Suc (plain_object ROLE_EDITABLETEXT ''RichEdit20W'' 8224)
     = (plain_object ROLE_EDITABLETEXT ''RichEdit20W'' 8224)\<lparr>parent := 2\<rparr>
   \<and> event_NVDAObject_init Suc (plain_object ROLE_PANE ''Internet Explorer_Server'' 0)
     = (plain_object ROLE_PANE ''Internet Explorer_Server'' 0)\<lparr>parent := 2\<rparr>
   \<and> event_NVDAObject_init Suc (plain_object ROLE_MENUITEM ''MsoCommandBar'' 0)
     = (plain_object ROLE_MENUITEM ''MsoCommandBar'' 0)\<lparr>description := None\<rparr>
   \<and> event_NVDAObject_init Suc (plain_object ROLE_TREEVIEW ''SysTreeView32'' 0)
     = (plain_object ROLE_TREEVIEW ''SysTreeView32'' 0)\<lparr>shouldAllowIAccessibleFocusEvent := True\<rparr>
   \<and> event_NVDAObject_init Suc (plain_object ROLE_UNKNOWN ''SUPERGRID'' 4704)
     = (plain_object ROLE_UNKNOWN ''SUPERGRID'' 4704)\<lparr>role := ROLE_LISTITEM\<rparr>
   \<and> event_NVDAObject_init Suc (plain_object (ROLE_OTHER 9) ''Button'' 1)
     = plain_object (ROLE_OTHER 9) ''Button'' 1"
  using event_NVDAObject_init_patches [of Suc "plain_object ROLE_EDITABLETEXT ''RichEdit20W'' 8224"]
    event_NVDAObject_init_patches [of Suc "plain_object ROLE_PANE ''Internet Explorer_Server'' 0"]
    event_NVDAObject_init_patches [of Suc "plain_object ROLE_MENUITEM ''MsoCommandBar'' 0"]
    event_NVDAObject_init_patches [of Suc "plain_object ROLE_TREEVIEW ''SysTreeView32'' 0"]
    event_NVDAObject_init_patches [of Suc "plain_object ROLE_UNKNOWN ''SUPERGRID'' 4704"]
    event_NVDAObject_init_patches [of Suc "plain_object (ROLE_OTHER 9) ''Button'' 1"]
  by (simp add: plain_object_def)

section \<open>The COM reads of \<open>UIAGridRow._get_name\<close>\<close>

lemma except_COMError_not_raised: "except_COMError r d \<noteq> Inl COMError"
  by (simp add: except_COMError_def split: sum.splits)

lemma except_COMError_returned: "valueOrCOMError r \<Longrightarrow> returned (except_COMError r d)"
  by (simp add: except_COMError_def valueOrCOMError_def returned_def split: sum.splits)

lemma selection_labels_not_raised: "selection_labels tr sel \<noteq> Inl COMError"
proof
  assume a: "selection_labels tr sel = Inl COMError"
  have n: "\<And>r d. except_COMError r d \<noteq> Inl COMError"
    by (rule except_COMError_not_raised)
  from a show False
    unfolding selection_labels_def Let_def
    by (simp add: n split: sum.splits)
qed

lemma selection_labels_returned:
  assumes "readsValueOrCOMError sel"
  shows "returned (selection_labels tr sel)"
proof -
  from assms obtain u where u: "except_COMError (unread sel) False = Inr u"
    using except_COMError_returned [of "unread sel" False]
    by (cases "except_COMError (unread sel) False")
       (auto simp: readsValueOrCOMError_def returned_def)
  from assms obtain c where
    c: "except_COMError (case attachments sel of Inl e \<Rightarrow> Inl e | Inr a \<Rightarrow> count a) 0 = Inr c"
    using except_COMError_returned [of "case attachments sel of Inl e \<Rightarrow> Inl e | Inr a \<Rightarrow> count a" 0]
    by (cases "except_COMError (case attachments sel of Inl e \<Rightarrow> Inl e | Inr a \<Rightarrow> count a) 0")
       (auto simp: readsValueOrCOMError_def returned_def)
  from assms obtain i where i: "except_COMError (importance sel) 1 = Inr i"
    using except_COMError_returned [of "importance sel" 1]
    by (cases "except_COMError (importance sel) 1")
       (auto simp: readsValueOrCOMError_def returned_def)
  from assms obtain m where m: "except_COMError (messageClass sel) None = Inr m"
    using except_COMError_returned [of "messageClass sel" None]
    by (cases "except_COMError (messageClass sel) None")
       (auto simp: readsValueOrCOMError_def returned_def)
  show ?thesis
    by (simp add: selection_labels_def u c i m Let_def returned_def)
qed

lemma get_name_not_raised: "get_name tr stateLabels reportTableHeaders self \<noteq> Inl COMError"
proof
  assume a: "get_name tr stateLabels reportTableHeaders self = Inl COMError"
  have n: "\<And>r d. except_COMError r (d :: selection option) \<noteq> Inl COMError"
    by (rule except_COMError_not_raised)
  have l: "\<And>s. selection_labels tr s \<noteq> Inl COMError"
    by (rule selection_labels_not_raised)
  from a show False
    unfolding get_name_def Let_def
    by (simp add: n l split: sum.splits option.splits if_splits)
qed

text \<open>The name depends on the selected item through its labels only.\<close>

lemma get_name_labels:
  assumes "selection_labels tr sel = selection_labels tr sel'"
  shows "get_name tr stateLabels reportTableHeaders (self\<lparr>selectionItem := Inr (Some sel)\<rparr>)
       = get_name tr stateLabels reportTableHeaders (self\<lparr>selectionItem := Inr (Some sel')\<rparr>)"
  by (simp add: get_name_def except_COMError_def assms split: sum.splits)

text \<open>
  C8.  In \<open>_get_name\<close> each of the four reads on the selected item has its own guard: a
  \<open>COMError\<close> from \<open>unread\<close> stands for \<open>False\<close>, one from \<open>attachments.count\<close> (from either
  of its two reads) for 0, one from \<open>importance\<close> for 1, which has no label, and one from
  \<open>messageClass\<close> for \<open>None\<close>.  The function never raises \<open>COMError\<close>, and when the reads
  give a value or a \<open>COMError\<close> it returns a string.
\<close>

theorem get_name_COMError_guarded:
  "get_name tr stateLabels reportTableHeaders (self\<lparr>selectionItem := Inr (Some (sel\<lparr>unread := Inl COMError\<rparr>))\<rparr>)
     = get_name tr stateLabels reportTableHeaders (self\<lparr>selectionItem := Inr (Some (sel\<lparr>unread := Inr False\<rparr>))\<rparr>)
   \<and> get_name tr stateLabels reportTableHeaders
        (self\<lparr>selectionItem := Inr (Some (sel\<lparr>attachments := Inl COMError\<rparr>))\<rparr>)
     = get_name tr stateLabels reportTableHeaders
        (self\<lparr>selectionItem := Inr (Some (sel\<lparr>attachments := Inr \<lparr>count = Inr 0\<rparr>\<rparr>))\<rparr>)
   \<and> get_name tr stateLabels reportTableHeaders
        (self\<lparr>selectionItem := Inr (Some (sel\<lparr>attachments := Inr \<lparr>count = Inl COMError\<rparr>\<rparr>))\<rparr>)
     = get_name tr stateLabels reportTableHeaders
        (self\<lparr>selectionItem := Inr (Some (sel\<lparr>attachments := Inr \<lparr>count = Inr 0\<rparr>\<rparr>))\<rparr>)
   \<and> get_name tr stateLabels reportTableHeaders
        (self\<lparr>selectionItem := Inr (Some (sel\<lparr>importance := Inl COMError\<rparr>))\<rparr>)
     = get_name tr stateLabels reportTableHeaders
        (self\<lparr>selectionItem := Inr (Some (sel\<lparr>importance := Inr 1\<rparr>))\<rparr>)
   \<and> importanceLabels tr 1 = None
   \<and> get_name tr stateLabels reportTableHeaders
        (self\<lparr>selectionItem := Inr (Some (sel\<lparr>messageClass := Inl COMError\<rparr>))\<rparr>)
     = get_name tr stateLabels reportTableHeaders
        (self\<lparr>selectionItem := Inr (Some (sel\<lparr>messageClass := Inr None\<rparr>))\<rparr>)
   \<and> get_name tr stateLabels reportTableHeaders self \<noteq> Inl COMError
   \<and> (selectionItem self = Inr (Some sel) \<and> readsValueOrCOMError sel
        \<longrightarrow> returned (get_name tr stateLabels reportTableHeaders self))"
proof -
  have c1: "get_name tr stateLabels reportTableHeaders (self\<lparr>selectionItem := Inr (Some (sel\<lparr>unread := Inl COMError\<rparr>))\<rparr>)
     = get_name tr stateLabels reportTableHeaders (self\<lparr>selectionItem := Inr (Some (sel\<lparr>unread := Inr False\<rparr>))\<rparr>)"
    by (rule get_name_labels)
       (simp add: selection_labels_def except_COMError_def Let_def split: sum.splits)
  have c2: "get_name tr stateLabels reportTableHeaders
        (self\<lparr>selectionItem := Inr (Some (sel\<lparr>attachments := Inl COMError\<rparr>))\<rparr>)
     = get_name tr stateLabels reportTableHeaders
        (self\<lparr>selectionItem := Inr (Some (sel\<lparr>attachments := Inr \<lparr>count = Inr 0\<rparr>\<rparr>))\<rparr>)"
    by (rule get_name_labels)
       (simp add: selection_labels_def except_COMError_def Let_def split: sum.splits)
  have c3: "get_name tr stateLabels reportTableHeaders
        (self\<lparr>selectionItem := Inr (Some (sel\<lparr>attachments := Inr \<lparr>count = Inl COMError\<rparr>\<rparr>))\<rparr>)
     = get_name tr stateLabels reportTableHeaders
        (self\<lparr>selectionItem := Inr (Some (sel\<lparr>attachments := Inr \<lparr>count = Inr 0\<rparr>\<rparr>))\<rparr>)"
    by (rule get_name_labels)
       (simp add: selection_labels_def except_COMError_def Let_def split: sum.splits)
  have c4: "get_name tr stateLabels reportTableHeaders
        (self\<lparr>selectionItem := Inr (Some (sel\<lparr>importance := Inl COMError\<rparr>))\<rparr>)
     = get_name tr stateLabels reportTableHeaders
        (self\<lparr>selectionItem := Inr (Some (sel\<lparr>importance := Inr 1\<rparr>))\<rparr>)"
    by (rule get_name_labels)
       (simp add: selection_labels_def except_COMError_def Let_def split: sum.splits)
  have c5: "importanceLabels tr 1 = None"
    by (simp add: importanceLabels_def)
  have c6: "get_name tr stateLabels reportTableHeaders
        (self\<lparr>selectionItem := Inr (Some (sel\<lparr>messageClass := Inl COMError\<rparr>))\<rparr>)
     = get_name tr stateLabels reportTableHeaders
        (self\<lparr>selectionItem := Inr (Some (sel\<lparr>messageClass := Inr None\<rparr>))\<rparr>)"
    by (rule get_name_labels)
       (simp add: selection_labels_def except_COMError_def Let_def split: sum.splits)
  have c7: "get_name tr stateLabels reportTableHeaders self \<noteq> Inl COMError"
    by (rule get_name_not_raised)
  have c8: "selectionItem self = Inr (Some sel) \<and> readsValueOrCOMError sel
        \<longrightarrow> returned (get_name tr stateLabels reportTableHeaders self)"
  proof
    assume a: "selectionItem self = Inr (Some sel) \<and> readsValueOrCOMError sel"
    then obtain labels where "selection_labels tr sel = Inr labels"
      using selection_labels_returned [of sel tr]
      by (cases "selection_labels tr sel") (auto simp: returned_def)
    with a show "returned (get_name tr stateLabels reportTableHeaders self)"
      by (simp add: get_name_def except_COMError_def returned_def)
  qed
  show ?thesis
    by (intro conjI) (fact c1 c2 c3 c4 c5 c6 c7 c8)+
qed

text \<open>
  The theorem at work on an expanded row whose selected item fails at all four reads:
  the name is made of the state label and the child's text.
\<close>

theorem get_name_COMError_guarded_witness:
  "selectionItem (row_of failing_selection) = Inr (Some failing_selection)
   \<and> readsValueOrCOMError failing_selection
   \<and> returned (get_name id state_name True (row_of failing_selection))
   \<and> get_name id state_name True (row_of failing_selection) = Inr ''expanded Subject Hello,''"
proof -
  have a: "selectionItem (row_of failing_selection) = Inr (Some failing_selection)"
    by (simp add: row_of_def)
  have b: "readsValueOrCOMError failing_selection"
    by (simp add: readsValueOrCOMError_def valueOrCOMError_def failing_selection_def)
  have c: "get_name id state_name True (row_of failing_selection) = Inr ''expanded Subject Hello,''"
    by (simp add: get_name_def row_of_def failing_selection_def selection_labels_def
        except_COMError_def importanceLabels_def truthy_def child_text_def state_name_def)
  from get_name_COMError_guarded [where tr = id and stateLabels = state_name
      and reportTableHeaders = True and self = "row_of failing_selection"
      and sel = failing_selection] a b c
  show ?thesis by simp
qed

end
